theory Spec2Isabelle
  imports Main "HOL-Library.Word"
begin

unbundle bit_operations_syntax

section \<open>Platform, library calls and system state\<close>

text \<open>
  The driver \<^verbatim>\<open>src/phyp/phyp_driver.c\<close> talks to libssh2, to the C library and to
  libvirt's utility layer. None of them is part of the file, so every call that leaves
  the file is a primitive \<open>prim\<close>; the environment gives, for every primitive, the
  reply to its \<open>n\<close>-th call, and the system state counts the calls made so far.
  A reply that never stops saying "would block" is a legal environment: the retry loops
  of the driver are therefore partial functions in the option monad, \<open>None\<close> meaning
  that the C function never returns.
\<close>

type_synonym byte = "8 word"
type_synonym c_int = "32 word"
type_synonym size_t = "64 word"

datatype prim =
    P_alloc                     \<comment> \<open>VIR_ALLOC, VIR_ALLOC_N, VIR_REALLOC_N, virAsprintf, virBuffer growth\<close>
  | P_session_block_directions  \<comment> \<open>libssh2_session_block_directions\<close>
  | P_poll                      \<comment> \<open>poll(2)\<close>
  | P_channel_open_session      \<comment> \<open>libssh2_channel_open_session and the session's last error\<close>
  | P_channel_exec              \<comment> \<open>libssh2_channel_exec\<close>
  | P_channel_read              \<comment> \<open>libssh2_channel_read\<close>
  | P_channel_close             \<comment> \<open>libssh2_channel_close\<close>
  | P_channel_get_exit_status   \<comment> \<open>libssh2_channel_get_exit_status\<close>
  | P_channel_write             \<comment> \<open>libssh2_channel_write\<close>
  | P_scp_send                  \<comment> \<open>libssh2_scp_send and the session's last errno\<close>
  | P_scp_recv                  \<comment> \<open>libssh2_scp_recv and the session's last errno\<close>
  | P_creat                     \<comment> \<open>creat(2) of ./uuid_table\<close>
  | P_open                      \<comment> \<open>open(2) of ./uuid_table, read only\<close>
  | P_safewrite                 \<comment> \<open>safewrite\<close>
  | P_read                      \<comment> \<open>read(2)\<close>
  | P_close                     \<comment> \<open>VIR_CLOSE\<close>
  | P_stat                      \<comment> \<open>stat(2) of ./uuid_table\<close>
  | P_fopen                     \<comment> \<open>fopen of ./uuid_table\<close>
  | P_fread                     \<comment> \<open>fread\<close>
  | P_uninit                    \<comment> \<open>indeterminate contents of an uninitialised stack buffer\<close>
  | P_uuid_generate             \<comment> \<open>virUUIDGenerate\<close>
  | P_open_ssh_session          \<comment> \<open>openSSHSession (socket, handshake, authentication)\<close>
  | P_caps_init                 \<comment> \<open>phypCapsInit\<close>
  | P_xml_option_new            \<comment> \<open>virDomainXMLOptionNew\<close>
  | P_num_of_domains            \<comment> \<open>phypConnectNumOfDomainsGeneric(conn, 2)\<close>
  | P_list_domains              \<comment> \<open>phypConnectListDomainsGeneric(conn, ids, nids, 1)\<close>
  | P_vios_partition_id         \<comment> \<open>phypGetVIOSPartitionID\<close>

record resp =
  r_rc :: int            \<comment> \<open>the return code; for a pointer result, 0 is a non-NULL pointer and
                             any other value is the error the session reports for the NULL\<close>
  r_errno :: int         \<comment> \<open>errno after the call\<close>
  r_size :: int          \<comment> \<open>the file size a copy channel reports when it opens\<close>
  r_data :: "byte list"  \<comment> \<open>the bytes the call delivers\<close>
  r_ids :: "32 word list" \<comment> \<open>the identifiers an enumeration delivers\<close>

record env =
  reply :: "prim \<Rightarrow> nat \<Rightarrow> resp"
  big_endian :: bool     \<comment> \<open>byte order of an int in memory\<close>
  SSH_CMD_ERR :: int     \<comment> \<open>the macro of phyp_driver.h, which is not part of the file\<close>

record sys =
  local_file :: "byte list option"   \<comment> \<open>the file ./uuid_table, None when it does not exist\<close>
  scp_sent :: "byte list"            \<comment> \<open>the bytes the current outbound copy channel accepted\<close>
  poll_events :: "16 word list"      \<comment> \<open>the event mask of every poll so far, oldest first\<close>
  calls :: "prim \<Rightarrow> nat"             \<comment> \<open>how often each primitive has been called\<close>

definition call :: "env \<Rightarrow> prim \<Rightarrow> sys \<Rightarrow> resp \<times> sys" where
  "call e p s = (reply e p (calls s p), s\<lparr>calls := (calls s)(p := Suc (calls s p))\<rparr>)"

text \<open>
  A read or write outside an allocated object, or through a NULL pointer, is undefined
  behaviour in C. The model stops there with \<open>Fault\<close> and keeps the state reached.
\<close>

datatype 'a result = Ret 'a | Fault

definition LIBSSH2_ERROR_EAGAIN :: int where "LIBSSH2_ERROR_EAGAIN = -37"
definition LIBSSH2_SESSION_BLOCK_INBOUND :: c_int where "LIBSSH2_SESSION_BLOCK_INBOUND = 1"
definition LIBSSH2_SESSION_BLOCK_OUTBOUND :: c_int where "LIBSSH2_SESSION_BLOCK_OUTBOUND = 2"
definition POLLIN :: "16 word" where "POLLIN = 1"
definition POLLOUT :: "16 word" where "POLLOUT = 4"
definition EINTR :: int where "EINTR = 4"
definition VIR_UUID_BUFLEN :: nat where "VIR_UUID_BUFLEN = 16"

section \<open>The readiness wait\<close>

text \<open>\<^verbatim>\<open>waitsocket\<close>: polls the socket, without timeout, for the directions the session
  declares; the result is poll's return value, with errno beside it.\<close>

definition waitsocket :: "env \<Rightarrow> sys \<Rightarrow> (int \<times> int) \<times> sys" where
  "waitsocket e s =
     (let (d, s1) = call e P_session_block_directions s;
          dir = (word_of_int (r_rc d) :: c_int);
          ev0 = (0 :: 16 word);
          ev1 = (if dir AND LIBSSH2_SESSION_BLOCK_INBOUND \<noteq> 0 then ev0 OR POLLIN else ev0);
          ev2 = (if dir AND LIBSSH2_SESSION_BLOCK_OUTBOUND \<noteq> 0 then ev1 OR POLLOUT else ev1);
          (p, s2) = call e P_poll s1
      in ((r_rc p, r_errno p), s2\<lparr>poll_events := poll_events s2 @ [ev2]\<rparr>))"

text \<open>The test every caller makes: \<^verbatim>\<open>waitsocket(sock, session) < 0 && errno != EINTR\<close>.\<close>

definition wait_failed :: "int \<times> int \<Rightarrow> bool" where
  "wait_failed w = (fst w < 0 \<and> snd w \<noteq> EINTR)"

section \<open>Remote command execution\<close>

datatype 'a step = Done 'a | WaitFailed

text \<open>Lines 117--125 of \<^verbatim>\<open>phypExec\<close>: open a channel, waiting while the session says
  "would block". \<open>Done True\<close> is a channel, \<open>Done False\<close> a NULL channel.\<close>

partial_function (option) phypExec_open :: "env \<Rightarrow> sys \<Rightarrow> (bool step \<times> sys) option" where
  "phypExec_open e s =
     (let (r, s1) = call e P_channel_open_session s in
      if r_rc r \<noteq> 0 \<and> r_rc r = LIBSSH2_ERROR_EAGAIN then
        (let (w, s2) = waitsocket e s1 in
         if wait_failed w then Some (WaitFailed, s2) else phypExec_open e s2)
      else Some (Done (r_rc r = 0), s1))"

text \<open>Lines 131--138: request the execution of the command.\<close>

partial_function (option) phypExec_exec :: "env \<Rightarrow> sys \<Rightarrow> (int step \<times> sys) option" where
  "phypExec_exec e s =
     (let (r, s1) = call e P_channel_exec s in
      if r_rc r = LIBSSH2_ERROR_EAGAIN then
        (let (w, s2) = waitsocket e s1 in
         if wait_failed w then Some (WaitFailed, s2) else phypExec_exec e s2)
      else Some (Done (r_rc r), s1))"

text \<open>
  libvirt's \<^verbatim>\<open>virBuffer\<close> (util/virbuffer.c, outside the file): the content is NULL until
  the first bytes are added, growth can fail, and a failed buffer ignores what is added.
  \<^verbatim>\<open>virBufferAdd(buf, str, -1)\<close> adds \<^verbatim>\<open>strlen(str)\<close> bytes, so the scan for the NUL
  leaves the array when the array holds none.
\<close>

record virBuffer =
  content :: "byte list option"
  error :: bool

definition VIR_BUFFER_INITIALIZER :: virBuffer where
  "VIR_BUFFER_INITIALIZER = \<lparr>content = None, error = False\<rparr>"

definition virBufferAdd_strlen :: "env \<Rightarrow> virBuffer \<Rightarrow> byte list \<Rightarrow> sys \<Rightarrow> virBuffer result \<times> sys" where
  "virBufferAdd_strlen e buf arr s =
     (if 0 \<notin> set arr then (Fault, s)
      else let str = takeWhile (\<lambda>b. b \<noteq> 0) arr in
        if error buf \<or> str = [] then (Ret buf, s)
        else let (a, s1) = call e P_alloc s in
          if r_rc a < 0 then (Ret (buf\<lparr>error := True\<rparr>), s1)
          else (Ret (buf\<lparr>content := Some (case content buf of None \<Rightarrow> str | Some c \<Rightarrow> c @ str)\<rparr>), s1))"

definition buffer_size :: nat where "buffer_size = 16384"

text \<open>Lines 144--166: drain the output. A reply with a non-negative code delivers its
  bytes, at most the size of the array, at the start of the array; the rest of the array
  keeps what earlier reads left there.\<close>

partial_function (option) phypExec_read ::
  "env \<Rightarrow> byte list \<Rightarrow> virBuffer \<Rightarrow> sys \<Rightarrow> (virBuffer result step \<times> sys) option" where
  "phypExec_read e buffer tex_ret s =
     (let (r, s1) = call e P_channel_read s;
          got = take (length buffer) (r_data r);
          rc = (if r_rc r < 0 then r_rc r else int (length got))
      in if rc > 0 then
           (let buffer' = got @ drop (length got) buffer in
            case virBufferAdd_strlen e tex_ret buffer' s1 of
              (Fault, s2) \<Rightarrow> Some (Done Fault, s2)
            | (Ret tex_ret', s2) \<Rightarrow> phypExec_read e buffer' tex_ret' s2)
         else if rc = LIBSSH2_ERROR_EAGAIN then
           (let (w, s2) = waitsocket e s1 in
            if wait_failed w then Some (WaitFailed, s2) else phypExec_read e buffer tex_ret s2)
         else Some (Done (Ret tex_ret), s1))"

text \<open>Lines 170--176: close the channel.\<close>

partial_function (option) phypExec_close :: "env \<Rightarrow> sys \<Rightarrow> (int step \<times> sys) option" where
  "phypExec_close e s =
     (let (r, s1) = call e P_channel_close s in
      if r_rc r = LIBSSH2_ERROR_EAGAIN then
        (let (w, s2) = waitsocket e s1 in
         if wait_failed w then Some (WaitFailed, s2) else phypExec_close e s2)
      else Some (Done (r_rc r), s1))"

text \<open>
  \<^verbatim>\<open>phypExec\<close>. The result is the returned string (None for NULL) with the value left in
  \<^verbatim>\<open>*exit_status\<close>, which the caller passes in and which stays as it was when the
  first allocation fails. The label \<^verbatim>\<open>err\<close> is \<open>phypExec_err\<close>; the function is
  cut at its loops: \<open>phypExec_run\<close> from line 131, \<open>phypExec_drain\<close> from line 144,
  \<open>phypExec_finish\<close> from line 168. The command is a pointer, None for NULL; it
  reaches only \<^verbatim>\<open>libssh2_channel_exec\<close>, a macro that takes \<^verbatim>\<open>strlen(cmd)\<close> before it
  calls the library, so a NULL command is a fault at line 131, after the channel opened.
\<close>

definition phypExec_err :: "env \<Rightarrow> sys \<Rightarrow> ((byte list option \<times> int) result \<times> sys) option" where
  "phypExec_err e s = Some (Ret (None, SSH_CMD_ERR e), s)"

definition phypExec_finish ::
  "env \<Rightarrow> virBuffer \<Rightarrow> sys \<Rightarrow> ((byte list option \<times> int) result \<times> sys) option" where
  "phypExec_finish e tex_ret s =
     (case phypExec_close e s of
        None \<Rightarrow> None
      | Some (WaitFailed, s1) \<Rightarrow> phypExec_err e s1
      | Some (Done rc, s1) \<Rightarrow>
          (let (exitcode, s2) =
                 (if rc = 0
                  then (let (x, s') = call e P_channel_get_exit_status s1 in (r_rc x, s'))
                  else (127, s1))
           in if error tex_ret then Some (Ret (None, exitcode), s2)
              else Some (Ret (content tex_ret, exitcode), s2)))"

definition phypExec_drain ::
  "env \<Rightarrow> sys \<Rightarrow> ((byte list option \<times> int) result \<times> sys) option" where
  "phypExec_drain e s =
     (case phypExec_read e (replicate buffer_size 0) VIR_BUFFER_INITIALIZER s of
        None \<Rightarrow> None
      | Some (WaitFailed, s1) \<Rightarrow> phypExec_err e s1
      | Some (Done Fault, s1) \<Rightarrow> Some (Fault, s1)
      | Some (Done (Ret tex_ret), s1) \<Rightarrow> phypExec_finish e tex_ret s1)"

definition phypExec_run ::
  "env \<Rightarrow> byte list option \<Rightarrow> sys \<Rightarrow> ((byte list option \<times> int) result \<times> sys) option" where
  "phypExec_run e cmd s =
     (if cmd = None then Some (Fault, s)
      else (case phypExec_exec e s of
              None \<Rightarrow> None
            | Some (WaitFailed, s1) \<Rightarrow> phypExec_err e s1
            | Some (Done rc, s1) \<Rightarrow> (if rc \<noteq> 0 then phypExec_err e s1 else phypExec_drain e s1)))"

definition phypExec ::
  "env \<Rightarrow> byte list option \<Rightarrow> int \<Rightarrow> sys \<Rightarrow> ((byte list option \<times> int) result \<times> sys) option" where
  "phypExec e cmd exit_status s =
     (let (a, s1) = call e P_alloc s in
      if r_rc a < 0 then Some (Ret (None, exit_status), s1)
      else (case phypExec_open e s1 of
              None \<Rightarrow> None
            | Some (WaitFailed, s2) \<Rightarrow> phypExec_err e s2
            | Some (Done ch, s2) \<Rightarrow> (if ch then phypExec_run e cmd s2 else phypExec_err e s2)))"

text \<open>\<^verbatim>\<open>phypExecBuffer\<close>: the command is the content of a \<^verbatim>\<open>virBuffer\<close>, NULL when
  nothing was ever added to it; with \<^verbatim>\<open>strip_newline\<close> and exit status 0 the first newline
  of the output becomes the terminating NUL.\<close>

definition phypExecBuffer ::
  "env \<Rightarrow> virBuffer \<Rightarrow> int \<Rightarrow> bool \<Rightarrow> sys \<Rightarrow> ((byte list option \<times> int) result \<times> sys) option" where
  "phypExecBuffer e buf exit_status strip_newline s =
     (if error buf then Some (Ret (None, exit_status), s)
      else case phypExec e (content buf) exit_status s of
        None \<Rightarrow> None
      | Some (Fault, s1) \<Rightarrow> Some (Fault, s1)
      | Some (Ret (ret, status), s1) \<Rightarrow>
        (case ret of
           Some out \<Rightarrow>
             if status = 0 \<and> strip_newline
             then Some (Ret (Some (takeWhile (\<lambda>b. b \<noteq> 10) out), status), s1)
             else Some (Ret (Some out, status), s1)
         | None \<Rightarrow> Some (Ret (None, status), s1)))"

section \<open>The correspondence table\<close>

text \<open>
  Modelled from the spec: the declarations of \<^verbatim>\<open>struct _lpar\<close> and
  \<^verbatim>\<open>struct _uuid_table\<close> (phyp_driver.h) are missing. The spec gives an entry as an
  integer id of 4 bytes and an identifier of 16 bytes (\<^verbatim>\<open>VIR_UUID_BUFLEN\<close>), and the table
  as the entry count with the ordered entries. The code holds the entries as an array of
  pointers: a slot is \<open>None\<close> when its pointer is NULL or was never set, and the length
  of the list is the number of slots allocated. \<^verbatim>\<open>nlpars\<close> is a \<^verbatim>\<open>size_t\<close>, far above the
  number of pointers an address space holds, so it is a natural number here.
\<close>

record lpar =
  lpar_uuid :: "byte list"
  lpar_id :: c_int

record uuid_table =
  nlpars :: nat
  lpars :: "lpar option list"

text \<open>\<^verbatim>\<open>uuid_table->lpars[i]->\<close>: the index must be inside the array, the pointer valid.\<close>

definition slot :: "uuid_table \<Rightarrow> nat \<Rightarrow> lpar result" where
  "slot t i =
     (if i < length (lpars t) then (case lpars t ! i of None \<Rightarrow> Fault | Some l \<Rightarrow> Ret l)
      else Fault)"

definition memcpy_uuid :: "byte list \<Rightarrow> byte list \<Rightarrow> byte list" where
  "memcpy_uuid dst src = take VIR_UUID_BUFLEN src @ drop VIR_UUID_BUFLEN dst"

definition memset_uuid :: "byte list \<Rightarrow> byte list" where
  "memset_uuid dst = replicate VIR_UUID_BUFLEN 0 @ drop VIR_UUID_BUFLEN dst"

text \<open>A fresh entry from \<^verbatim>\<open>VIR_ALLOC\<close>, which zeroes the memory it returns.\<close>

definition zero_lpar :: lpar where
  "zero_lpar = \<lparr>lpar_uuid = replicate VIR_UUID_BUFLEN 0, lpar_id = 0\<rparr>"

subsection \<open>The local file\<close>

text \<open>The four bytes of an \<^verbatim>\<open>int\<close> as they lie in memory, and the \<^verbatim>\<open>int\<close> that four
  bytes of memory hold; \<open>be_bytes\<close> and \<open>be_int\<close> put the most significant byte first.\<close>

definition be_bytes :: "c_int \<Rightarrow> byte list" where
  "be_bytes x = [ucast (drop_bit 24 x), ucast (drop_bit 16 x), ucast (drop_bit 8 x), ucast x]"

definition be_int :: "byte list \<Rightarrow> c_int" where
  "be_int bs = foldl (\<lambda>acc b. push_bit 8 acc OR ucast b) 0 bs"

definition int_bytes :: "env \<Rightarrow> c_int \<Rightarrow> byte list" where
  "int_bytes e x = (if big_endian e then be_bytes x else rev (be_bytes x))"

definition bytes_int :: "env \<Rightarrow> byte list \<Rightarrow> c_int" where
  "bytes_int e bs = be_int (if big_endian e then bs else rev bs)"

text \<open>\<^verbatim>\<open>safewrite\<close> appends to the open file and returns the count, or fails with -1 after
  a prefix of the bytes, as long as the reply's data, has reached the file.\<close>

definition safewrite :: "env \<Rightarrow> byte list \<Rightarrow> sys \<Rightarrow> int \<times> sys" where
  "safewrite e bs s =
     (let (r, s1) = call e P_safewrite s;
          old = (case local_file s1 of None \<Rightarrow> [] | Some f \<Rightarrow> f)
      in if r_rc r < 0 then (-1, s1\<lparr>local_file := Some (old @ take (length (r_data r)) bs)\<rparr>)
         else (int (length bs), s1\<lparr>local_file := Some (old @ bs)\<rparr>))"

function WriteFile_loop :: "env \<Rightarrow> uuid_table \<Rightarrow> nat \<Rightarrow> sys \<Rightarrow> int result \<times> sys" where
  "WriteFile_loop e t i s =
     (if i < nlpars t then
        (case slot t i of
           Fault \<Rightarrow> (Fault, s)
         | Ret l \<Rightarrow>
             (let (n1, s1) = safewrite e (int_bytes e (lpar_id l)) s in
              if n1 \<noteq> 4 then (Ret (-1), s1)
              else (let (n2, s2) = safewrite e (take VIR_UUID_BUFLEN (lpar_uuid l)) s1 in
                    if n2 \<noteq> int VIR_UUID_BUFLEN then (Ret (-1), s2)
                    else WriteFile_loop e t (Suc i) s2)))
      else (Ret 0, s))"
  by pat_completeness auto
termination
  by (relation "measure (\<lambda>(e, t, i, s). nlpars t - i)") auto

definition phypUUIDTable_WriteFile :: "env \<Rightarrow> uuid_table \<Rightarrow> sys \<Rightarrow> int result \<times> sys" where
  "phypUUIDTable_WriteFile e t s =
     (let (c, s1) = call e P_creat s in
      if r_rc c < 0 then (Ret (-1), s1)
      else (case WriteFile_loop e t 0 (s1\<lparr>local_file := Some []\<rparr>) of
              (Fault, s2) \<Rightarrow> (Fault, s2)
            | (Ret r, s2) \<Rightarrow>
                if r \<noteq> 0 then (Ret (-1), s2)
                else (let (cl, s3) = call e P_close s2 in
                      if r_rc cl < 0 then (Ret (-1), s3) else (Ret 0, s3))))"

subsection \<open>Pushing the local file to the remote host\<close>

text \<open>Lines 490--499 of \<^verbatim>\<open>phypUUIDTable_Push\<close>: open the outbound copy channel, trying
  again at once while the session says "would block". \<open>True\<close> is a channel.\<close>

partial_function (option) Push_open :: "env \<Rightarrow> sys \<Rightarrow> (bool \<times> sys) option" where
  "Push_open e s =
     (let (r, s1) = call e P_scp_send s in
      if r_rc r \<noteq> 0 \<and> r_rc r \<noteq> LIBSSH2_ERROR_EAGAIN then Some (False, s1)
      else if r_rc r \<noteq> 0 then Push_open e s1
      else Some (True, s1))"

text \<open>
  Lines 515--526, the inner loop. \<^verbatim>\<open>ptr\<close> is the offset into \<^verbatim>\<open>buffer\<close>, \<^verbatim>\<open>nread\<close> and
  \<^verbatim>\<open>sent\<close> are \<^verbatim>\<open>size_t\<close>. A reply with a positive code accepts that many bytes, at most
  the \<^verbatim>\<open>nread\<close> asked for, read from \<^verbatim>\<open>ptr\<close> on; reading past the array is a fault.
  \<^verbatim>\<open>continue\<close> in a do-while goes to the test, which fails for the negative code.
\<close>

partial_function (option) Push_write ::
  "env \<Rightarrow> byte list \<Rightarrow> nat \<Rightarrow> size_t \<Rightarrow> size_t \<Rightarrow> sys \<Rightarrow> (unit result \<times> sys) option" where
  "Push_write e buffer ptr nread sent s =
     (let (r, s1) = call e P_channel_write s;
          rc = (if r_rc r > 0 then min (r_rc r) (int (unat nread)) else r_rc r)
      in if rc = LIBSSH2_ERROR_EAGAIN then Some (Ret (), s1)
         else if rc > 0 then
           (if ptr + nat rc > length buffer then Some (Fault, s1)
            else (let s2 = s1\<lparr>scp_sent := scp_sent s1 @ take (nat rc) (drop ptr buffer)\<rparr>;
                      sent' = sent + word_of_int rc;
                      ptr' = ptr + unat sent';
                      nread' = nread - sent'
                  in if sent' < nread' then Push_write e buffer ptr' nread' sent' s2
                     else Some (Ret (), s2)))
         else Some (Ret (), s1))"

text \<open>Lines 501--527, the outer loop: \<open>rest\<close> is what \<^verbatim>\<open>fread\<close> has not read yet, a failed
  \<^verbatim>\<open>fread\<close> reads nothing and leaves the end-of-file mark unset.\<close>

function Push_blocks :: "env \<Rightarrow> byte list \<Rightarrow> byte list \<Rightarrow> sys \<Rightarrow> (int result \<times> sys) option" where
  "Push_blocks e rest buffer s =
     (let (fr, s1) = call e P_fread s;
          chunk = (if r_rc fr < 0 then [] else take (length buffer) rest)
      in if chunk = [] then (if r_rc fr < 0 then Some (Ret (-1), s1) else Some (Ret 0, s1))
         else (case Push_write e (chunk @ drop (length chunk) buffer) 0 (of_nat (length chunk)) 0 s1 of
                 None \<Rightarrow> None
               | Some (Fault, s2) \<Rightarrow> Some (Fault, s2)
               | Some (Ret u, s2) \<Rightarrow>
                   Push_blocks e (drop (length chunk) rest) (chunk @ drop (length chunk) buffer) s2))"
  by pat_completeness auto
termination
  by (relation "measure (\<lambda>(e, rest, buffer, s). length rest)") (auto split: if_splits)

text \<open>\<^verbatim>\<open>phypUUIDTable_Push\<close>. The array \<^verbatim>\<open>buffer\<close> has 1024 bytes and starts with whatever
  the stack holds. The channel's end of stream and close at \<^verbatim>\<open>cleanup\<close> change nothing
  the model keeps.\<close>

definition Push_buffer0 :: "env \<Rightarrow> sys \<Rightarrow> byte list \<times> sys" where
  "Push_buffer0 e s =
     (let (u, s1) = call e P_uninit s in (take 1024 (r_data u @ replicate 1024 0), s1))"

definition phypUUIDTable_Push :: "env \<Rightarrow> sys \<Rightarrow> (int result \<times> sys) option" where
  "phypUUIDTable_Push e s =
     (let (buffer, s0) = Push_buffer0 e s;
          (a, s1) = call e P_alloc s0 in
      if r_rc a < 0 then Some (Ret (-1), s1)
      else (let (st, s2) = call e P_stat s1 in
        if r_rc st < 0 \<or> local_file s2 = None then Some (Ret (-1), s2)
        else (let (fo, s3) = call e P_fopen s2 in
          if r_rc fo < 0 then Some (Ret (-1), s3)
          else (case Push_open e s3 of
                  None \<Rightarrow> None
                | Some (ch, s4) \<Rightarrow>
                    if \<not> ch then Some (Ret (-1), s4)
                    else Push_blocks e (case local_file s4 of None \<Rightarrow> [] | Some f \<Rightarrow> f) buffer
                           (s4\<lparr>scp_sent := []\<rparr>)))))"

subsection \<open>Removing, adding and finding an entry\<close>

text \<open>Lines 550--555 of \<^verbatim>\<open>phypUUIDTable_RemLpar\<close>: the scan, with its bound
  \<^verbatim>\<open>i <= uuid_table->nlpars\<close>.\<close>

function RemLpar_scan :: "c_int \<Rightarrow> nat \<Rightarrow> uuid_table \<Rightarrow> unit result \<times> uuid_table" where
  "RemLpar_scan ident i t =
     (if i \<le> nlpars t then
        (case slot t i of
           Fault \<Rightarrow> (Fault, t)
         | Ret l \<Rightarrow>
             RemLpar_scan ident (Suc i)
               (if lpar_id l = ident
                then t\<lparr>lpars := (lpars t)[i := Some \<lparr>lpar_uuid = memset_uuid (lpar_uuid l), lpar_id = -1\<rparr>]\<rparr>
                else t))
      else (Ret (), t))"
  by pat_completeness auto
termination
  by (relation "measure (\<lambda>(ident, i, t). Suc (nlpars t) - i)") auto

text \<open>What both mutations end with: rewrite the local file, push it.\<close>

definition persist :: "env \<Rightarrow> uuid_table \<Rightarrow> sys \<Rightarrow> (int result \<times> sys) option" where
  "persist e t s =
     (case phypUUIDTable_WriteFile e t s of
        (Fault, s1) \<Rightarrow> Some (Fault, s1)
      | (Ret r, s1) \<Rightarrow>
          if r = -1 then Some (Ret (-1), s1)
          else (case phypUUIDTable_Push e s1 of
                  None \<Rightarrow> None
                | Some (Fault, s2) \<Rightarrow> Some (Fault, s2)
                | Some (Ret r', s2) \<Rightarrow> if r' = -1 then Some (Ret (-1), s2) else Some (Ret 0, s2)))"

definition phypUUIDTable_RemLpar ::
  "env \<Rightarrow> c_int \<Rightarrow> uuid_table \<Rightarrow> sys \<Rightarrow> (int result \<times> uuid_table \<times> sys) option" where
  "phypUUIDTable_RemLpar e ident t s =
     (case RemLpar_scan ident 0 t of
        (Fault, t') \<Rightarrow> Some (Fault, t', s)
      | (Ret u, t') \<Rightarrow> map_option (\<lambda>(r, s'). (r, t', s')) (persist e t' s))"

text \<open>\<^verbatim>\<open>phypUUIDTable_AddLpar\<close>. \<^verbatim>\<open>VIR_REALLOC_N\<close> leaves the array as it is when it fails
  and sets no new slot when it succeeds; a failed \<^verbatim>\<open>VIR_ALLOC\<close> leaves NULL in the slot.\<close>

definition phypUUIDTable_AddLpar ::
  "env \<Rightarrow> byte list \<Rightarrow> c_int \<Rightarrow> uuid_table \<Rightarrow> sys \<Rightarrow> (int result \<times> uuid_table \<times> sys) option" where
  "phypUUIDTable_AddLpar e uuid ident t s =
     (let t1 = t\<lparr>nlpars := nlpars t + 1\<rparr>;
          i = nlpars t1 - 1;
          (a, s1) = call e P_alloc s in
      if r_rc a < 0 then Some (Ret (-1), t1, s1)
      else (let t2 = t1\<lparr>lpars := take (nlpars t1) (lpars t1 @ replicate (nlpars t1) None)\<rparr>;
                (b, s2) = call e P_alloc s1 in
            if r_rc b < 0 then Some (Ret (-1), t2\<lparr>lpars := (lpars t2)[i := None]\<rparr>, s2)
            else (let t3 = t2\<lparr>lpars := (lpars t2)
                             [i := Some \<lparr>lpar_uuid = memcpy_uuid (lpar_uuid zero_lpar) uuid,
                                         lpar_id = ident\<rparr>]\<rparr>
                  in map_option (\<lambda>(r, s'). (r, t3, s')) (persist e t3 s2))))"

text \<open>\<^verbatim>\<open>phypGetLparUUID\<close>: the result is the return code with the caller's \<^verbatim>\<open>uuid\<close> array
  after the call.\<close>

function GetLparUUID_scan :: "uuid_table \<Rightarrow> c_int \<Rightarrow> nat \<Rightarrow> byte list \<Rightarrow> (int \<times> byte list) result" where
  "GetLparUUID_scan t ident i uuid =
     (if i < nlpars t then
        (case slot t i of
           Fault \<Rightarrow> Fault
         | Ret l \<Rightarrow>
             if lpar_id l = ident then Ret (0, memcpy_uuid uuid (lpar_uuid l))
             else GetLparUUID_scan t ident (Suc i) uuid)
      else Ret (-1, uuid))"
  by pat_completeness auto
termination
  by (relation "measure (\<lambda>(t, ident, i, uuid). nlpars t - i)") auto

definition phypGetLparUUID :: "byte list \<Rightarrow> c_int \<Rightarrow> uuid_table \<Rightarrow> (int \<times> byte list) result" where
  "phypGetLparUUID uuid ident t = GetLparUUID_scan t ident 0 uuid"

subsection \<open>Reading the local file\<close>

text \<open>\<^verbatim>\<open>read(fd, buf, n)\<close> on the open file: the next bytes, fewer than \<open>n\<close> at the end of
  the file, or -1. The result is the count, the bytes and what is left to read.\<close>

definition fd_read :: "env \<Rightarrow> byte list \<Rightarrow> nat \<Rightarrow> sys \<Rightarrow> (int \<times> byte list \<times> byte list) \<times> sys" where
  "fd_read e rest n s =
     (let (r, s1) = call e P_read s in
      if r_rc r < 0 then ((-1, [], rest), s1)
      else ((int (length (take n rest)), take n rest, drop n rest), s1))"

text \<open>Lines 618--636 of \<^verbatim>\<open>phypUUIDTable_ReadFile\<close>; \<^verbatim>\<open>sizeof(int)\<close> is 4.\<close>

function ReadFile_loop ::
  "env \<Rightarrow> byte list \<Rightarrow> nat \<Rightarrow> uuid_table \<Rightarrow> sys \<Rightarrow> int \<times> uuid_table \<times> sys" where
  "ReadFile_loop e rest i t s =
     (if i < nlpars t then
        (let ((rc, got, rest1), s1) = fd_read e rest 4 s in
         if rc = 4 then
           (let (a, s2) = call e P_alloc s1 in
            if r_rc a < 0 then (-1, t, s2)
            else (let ((rc2, got2, rest2), s3) = fd_read e rest1 VIR_UUID_BUFLEN s2;
                      l = \<lparr>lpar_uuid = got2 @ drop (length got2) (lpar_uuid zero_lpar),
                           lpar_id = bytes_int e got\<rparr>;
                      t1 = t\<lparr>lpars := (lpars t)[i := Some l]\<rparr>
                  in if rc2 \<noteq> int VIR_UUID_BUFLEN then (-1, t1, s3)
                     else ReadFile_loop e rest2 (Suc i) t1 s3))
         else (-1, t, s1))
      else (0, t, s))"
  by pat_completeness auto
termination
  by (relation "measure (\<lambda>(e, rest, i, t, s). nlpars t - i)") auto

text \<open>\<^verbatim>\<open>phypUUIDTable_ReadFile\<close>. When the array cannot be allocated the function skips the
  loop and returns 0, as the code does.\<close>

definition phypUUIDTable_ReadFile :: "env \<Rightarrow> uuid_table \<Rightarrow> sys \<Rightarrow> int \<times> uuid_table \<times> sys" where
  "phypUUIDTable_ReadFile e t s =
     (let (opn, s1) = call e P_open s in
      if r_rc opn < 0 \<or> local_file s1 = None then (-1, t, s1)
      else (let (a, s2) = call e P_alloc s1 in
            if r_rc a < 0 then (0, t\<lparr>lpars := []\<rparr>, s2)
            else ReadFile_loop e (case local_file s2 of None \<Rightarrow> [] | Some f \<Rightarrow> f) 0
                   (t\<lparr>lpars := replicate (nlpars t) None\<rparr>) s2))"

subsection \<open>Pulling the remote file\<close>

text \<open>Lines 670--685 of \<^verbatim>\<open>phypUUIDTable_Pull\<close>: open the inbound copy channel. The result
  is the size the remote side reports, or None for \<^verbatim>\<open>goto cleanup\<close>.\<close>

partial_function (option) Pull_open :: "env \<Rightarrow> sys \<Rightarrow> (int option \<times> sys) option" where
  "Pull_open e s =
     (let (r, s1) = call e P_scp_recv s in
      if r_rc r \<noteq> 0 then
        (if r_rc r \<noteq> LIBSSH2_ERROR_EAGAIN then Some (None, s1)
         else (let (w, s2) = waitsocket e s1 in
               if wait_failed w then Some (None, s2) else Pull_open e s2))
      else Some (Some (r_size r), s1))"

text \<open>Lines 693--709, the inner loop: read at most what is left of the file, at most the
  1024 bytes of the array, and append the chunk to the local file; a failed write is only
  logged. The result is the last code with the count \<^verbatim>\<open>got\<close>.\<close>

partial_function (option) Pull_chunks :: "env \<Rightarrow> int \<Rightarrow> int \<Rightarrow> sys \<Rightarrow> ((int \<times> int) \<times> sys) option" where
  "Pull_chunks e st_size got s =
     (let amount = (if st_size - got < 1024 then st_size - got else 1024);
          (r, s1) = call e P_channel_read s;
          chunk = take (nat amount) (r_data r);
          rc = (if r_rc r < 0 then r_rc r else int (length chunk))
      in if rc > 0 then
           (let (n, s2) = safewrite e chunk s1 in Pull_chunks e st_size (got + rc) s2)
         else Some ((rc, got), s1))"

text \<open>Lines 692--725, the outer loop; \<open>False\<close> is \<^verbatim>\<open>goto cleanup\<close> after a failed wait.\<close>

partial_function (option) Pull_read :: "env \<Rightarrow> int \<Rightarrow> int \<Rightarrow> sys \<Rightarrow> (bool \<times> sys) option" where
  "Pull_read e st_size got s =
     (if got < st_size then
        (case Pull_chunks e st_size got s of
           None \<Rightarrow> None
         | Some ((rc, got'), s1) \<Rightarrow>
             if rc = LIBSSH2_ERROR_EAGAIN \<and> got' < st_size then
               (let (w, s2) = waitsocket e s1 in
                if wait_failed w then Some (False, s2) else Pull_read e st_size got' s2)
             else Some (True, s1))
      else Some (True, s))"

definition phypUUIDTable_Pull :: "env \<Rightarrow> sys \<Rightarrow> (int \<times> sys) option" where
  "phypUUIDTable_Pull e s =
     (let (a, s1) = call e P_alloc s in
      if r_rc a < 0 then Some (-1, s1)
      else (case Pull_open e s1 of
              None \<Rightarrow> None
            | Some (None, s2) \<Rightarrow> Some (-1, s2)
            | Some (Some st_size, s2) \<Rightarrow>
                (let (c, s3) = call e P_creat s2 in
                 if r_rc c < 0 then Some (-1, s3)
                 else (case Pull_read e st_size 0 (s3\<lparr>local_file := Some []\<rparr>) of
                         None \<Rightarrow> None
                       | Some (False, s4) \<Rightarrow> Some (-1, s4)
                       | Some (True, s4) \<Rightarrow>
                           (let (cl, s5) = call e P_close s4 in
                            if r_rc cl < 0 then Some (-1, s5) else Some (0, s5))))))"

subsection \<open>Initialising the table\<close>

text \<open>Lines 787--795 of \<^verbatim>\<open>phypUUIDTable_Init\<close>: one fresh entry per listed identifier.
  A failed \<^verbatim>\<open>virUUIDGenerate\<close> is only logged; the entry keeps the bytes the call left.\<close>

function Init_fill :: "env \<Rightarrow> c_int list \<Rightarrow> nat \<Rightarrow> uuid_table \<Rightarrow> sys \<Rightarrow> int result \<times> uuid_table \<times> sys" where
  "Init_fill e ids i t s =
     (if i < nlpars t then
        (let (a, s1) = call e P_alloc s in
         if r_rc a < 0 then (Ret (-1), t, s1)
         else if i \<ge> length ids \<or> i \<ge> length (lpars t) then (Fault, t, s1)
         else (let (g, s2) = call e P_uuid_generate s1;
                   l = \<lparr>lpar_uuid = memcpy_uuid (lpar_uuid zero_lpar) (r_data g @ lpar_uuid zero_lpar),
                        lpar_id = ids ! i\<rparr>
               in Init_fill e ids (Suc i) (t\<lparr>lpars := (lpars t)[i := Some l]\<rparr>) s2))
      else (Ret 0, t, s))"
  by pat_completeness auto
termination
  by (relation "measure (\<lambda>(e, ids, i, t, s). nlpars t - i)") auto

text \<open>Lines 783--803, the branch taken when the pull returned -1.\<close>

definition Init_create ::
  "env \<Rightarrow> c_int list \<Rightarrow> uuid_table \<Rightarrow> sys \<Rightarrow> (int result \<times> uuid_table \<times> sys) option" where
  "Init_create e ids t s =
     (let (a, s1) = call e P_alloc s in
      if r_rc a < 0 then Some (Ret (-1), t\<lparr>lpars := []\<rparr>, s1)
      else (case Init_fill e ids 0 (t\<lparr>lpars := replicate (nlpars t) None\<rparr>) s1 of
              (Fault, t1, s2) \<Rightarrow> Some (Fault, t1, s2)
            | (Ret r, t1, s2) \<Rightarrow>
                if r \<noteq> 0 then Some (Ret (-1), t1, s2)
                else map_option (\<lambda>(r', s'). (r', t1, s')) (persist e t1 s2)))"

text \<open>The label \<^verbatim>\<open>cleanup\<close>: after a failure with \<^verbatim>\<open>table_created\<close> set, every slot below
  \<^verbatim>\<open>nlpars\<close> is read and freed, then the array.\<close>

definition Init_cleanup :: "int result \<Rightarrow> bool \<Rightarrow> uuid_table \<Rightarrow> int result \<times> uuid_table" where
  "Init_cleanup r table_created t =
     (case r of
        Fault \<Rightarrow> (Fault, t)
      | Ret ret \<Rightarrow>
          if ret < 0 \<and> table_created
          then (if length (lpars t) < nlpars t then (Fault, t) else (Ret ret, t\<lparr>lpars := []\<rparr>))
          else (Ret ret, t))"

text \<open>
  \<^verbatim>\<open>phypUUIDTable_Init\<close>. The two enumerations of the remote partitions build a command
  text and parse the reply (libvirt's \<^verbatim>\<open>virStrToLong_i\<close>); the model takes their results
  from the environment: the count of the first, the count and the identifiers of the
  second. The result carries \<^verbatim>\<open>table_created\<close> beside the return code.
\<close>

definition phypUUIDTable_Init ::
  "env \<Rightarrow> uuid_table \<Rightarrow> sys \<Rightarrow> ((int result \<times> bool) \<times> uuid_table \<times> sys) option" where
  "phypUUIDTable_Init e t s =
     (let (n, s1) = call e P_num_of_domains s;
          nids_numdomains = r_rc n in
      if nids_numdomains < 0 then Some ((Ret (-1), False), t, s1)
      else (let (a, s2) = call e P_alloc s1 in
        if r_rc a < 0 then Some ((Ret (-1), False), t, s2)
        else (let (l, s3) = call e P_list_domains s2;
                  nids_listdomains = r_rc l;
                  ids = take (nat nids_numdomains) (r_ids l @ replicate (nat nids_numdomains) 0) in
          if nids_listdomains < 0 then Some ((Ret (-1), False), t, s3)
          else if nids_numdomains = 0 \<and> nids_listdomains = 0 then Some ((Ret 0, False), t, s3)
          else if nids_numdomains \<noteq> nids_listdomains then Some ((Ret (-1), False), t, s3)
          else (let t1 = t\<lparr>nlpars := nat nids_listdomains\<rparr> in
            case phypUUIDTable_Pull e s3 of
              None \<Rightarrow> None
            | Some (pulled, s4) \<Rightarrow>
                if pulled = -1 then
                  (case Init_create e ids t1 s4 of
                     None \<Rightarrow> None
                   | Some (r, t2, s5) \<Rightarrow>
                       (let (r', t3) = Init_cleanup r True t2 in Some ((r', True), t3, s5)))
                else (let (r, t2, s5) = phypUUIDTable_ReadFile e t1 s4 in
                      Some ((Ret (if r = -1 then -1 else 0), False), t2, s5))))))"

section \<open>Opening a connection\<close>

text \<open>The macro \<^verbatim>\<open>SPECIALCHARACTER_CASES\<close>: the case labels, in the order of the source.\<close>

definition SPECIALCHARACTER_CASES :: "char list" where
  "SPECIALCHARACTER_CASES =
     [CHR ''&'', CHR '';'', CHR 0x60, CHR ''@'', CHR 0x22, CHR ''|'', CHR ''*'',
      CHR ''?'', CHR ''~'', CHR ''<'', CHR ''>'', CHR ''^'', CHR ''('', CHR '')'',
      CHR ''['', CHR '']'', CHR ''{'', CHR ''}'', CHR ''$'', CHR ''%'', CHR ''#'',
      CHR 0x5C, CHR 0x0A, CHR 0x0D, CHR 0x09]"

text \<open>\<^verbatim>\<open>contains_specialcharacters\<close>: a C string is the list of its characters before the
  terminating NUL.\<close>

function contains_loop :: "string \<Rightarrow> nat \<Rightarrow> bool" where
  "contains_loop src i =
     (if i < length src then
        (if src ! i \<in> set SPECIALCHARACTER_CASES then True else contains_loop src (Suc i))
      else False)"
  by pat_completeness auto
termination
  by (relation "measure (\<lambda>(src, i). length src - i)") auto

definition contains_specialcharacters :: "string \<Rightarrow> bool" where
  "contains_specialcharacters src = (if length src = 0 then False else contains_loop src 0)"

record virURI =
  scheme :: "string option"
  server :: "string option"
  path :: "string option"
  user :: "string option"

record virConnect =
  uri :: "virURI option"

datatype virDrvOpenStatus = VIR_DRV_OPEN_SUCCESS | VIR_DRV_OPEN_DECLINED | VIR_DRV_OPEN_ERROR

definition HMC :: int where "HMC = 0"
definition IVM :: int where "IVM = 127"

text \<open>\<^verbatim>\<open>phypGetSystemType\<close>: the exit status of \<^verbatim>\<open>lshmc -V\<close>.\<close>

definition phypGetSystemType :: "env \<Rightarrow> sys \<Rightarrow> (int result \<times> sys) option" where
  "phypGetSystemType e s =
     (case phypExec e (Some (map of_char ''lshmc -V'')) 0 s of
        None \<Rightarrow> None
      | Some (Fault, s1) \<Rightarrow> Some (Fault, s1)
      | Some (Ret (ret, exit_status), s1) \<Rightarrow> Some (Ret exit_status, s1))"

text \<open>\<^verbatim>\<open>phypUUIDTable_Free\<close>, None for a NULL table: every slot below \<^verbatim>\<open>nlpars\<close> is read
  and freed, then the array and the table.\<close>

definition phypUUIDTable_Free :: "uuid_table option \<Rightarrow> unit result" where
  "phypUUIDTable_Free ut =
     (case ut of
        None \<Rightarrow> Ret ()
      | Some t \<Rightarrow> if length (lpars t) < nlpars t then Fault else Ret ())"

text \<open>The label \<^verbatim>\<open>failure\<close> of \<^verbatim>\<open>phypConnectOpen\<close>: it frees the table, among the rest,
  and returns \<^verbatim>\<open>VIR_DRV_OPEN_ERROR\<close>.\<close>

definition phypConnectOpen_failure :: "uuid_table option \<Rightarrow> virDrvOpenStatus result" where
  "phypConnectOpen_failure ut =
     (case phypUUIDTable_Free ut of Fault \<Rightarrow> Fault | Ret u \<Rightarrow> Ret VIR_DRV_OPEN_ERROR)"

text \<open>Lines 1123--1153 of \<^verbatim>\<open>phypConnectOpen\<close>, with the session open: the table starts
  empty; every failure ends at the label \<^verbatim>\<open>failure\<close>.\<close>

definition phypConnectOpen_session :: "env \<Rightarrow> sys \<Rightarrow> (virDrvOpenStatus result \<times> uuid_table \<times> sys) option" where
  "phypConnectOpen_session e s =
     (let t0 = \<lparr>nlpars = 0, lpars = []\<rparr>;
          (c, s1) = call e P_caps_init s in
      if r_rc c < 0 then Some (phypConnectOpen_failure (Some t0), t0, s1)
      else (let (x, s2) = call e P_xml_option_new s1 in
        if r_rc x < 0 then Some (phypConnectOpen_failure (Some t0), t0, s2)
        else (case phypGetSystemType e s2 of
                None \<Rightarrow> None
              | Some (Fault, s3) \<Rightarrow> Some (Fault, t0, s3)
              | Some (Ret system_type, s3) \<Rightarrow>
                  if system_type = -1 then Some (phypConnectOpen_failure (Some t0), t0, s3)
                  else (case phypUUIDTable_Init e t0 s3 of
                          None \<Rightarrow> None
                        | Some ((Fault, created), t1, s4) \<Rightarrow> Some (Fault, t1, s4)
                        | Some ((Ret r, created), t1, s4) \<Rightarrow>
                            if r = -1 then Some (phypConnectOpen_failure (Some t1), t1, s4)
                            else if system_type = HMC then
                              (let (v, s5) = call e P_vios_partition_id s4 in
                               if r_rc v = -1 then Some (phypConnectOpen_failure (Some t1), t1, s5)
                               else Some (Ret VIR_DRV_OPEN_SUCCESS, t1, s5))
                            else Some (Ret VIR_DRV_OPEN_SUCCESS, t1, s4)))))"

text \<open>
  \<^verbatim>\<open>phypConnectOpen\<close>. \<open>flags_rejected\<close> is the outcome of the macro \<^verbatim>\<open>virCheckFlags\<close>
  (internal.h, outside the file); \<open>conn\<close> is None for a NULL pointer. The table pointer
  is NULL until its allocation succeeds. The name of the managed system, cut from the
  path, goes into the driver data and decides no result, so the model leaves it out.
  \<^verbatim>\<open>openSSHSession\<close> is one call of the environment: a count of 0 for
  \<open>P_open_ssh_session\<close> says no session was attempted.
\<close>

definition phypConnectOpen ::
  "env \<Rightarrow> bool \<Rightarrow> virConnect option \<Rightarrow> sys \<Rightarrow> (virDrvOpenStatus result \<times> uuid_table \<times> sys) option" where
  "phypConnectOpen e flags_rejected conn s =
     (let t0 = \<lparr>nlpars = 0, lpars = []\<rparr> in
      if flags_rejected then Some (Ret VIR_DRV_OPEN_ERROR, t0, s)
      else (case conn of
        None \<Rightarrow> Some (Ret VIR_DRV_OPEN_DECLINED, t0, s)
      | Some c \<Rightarrow>
        (case uri c of
           None \<Rightarrow> Some (Ret VIR_DRV_OPEN_DECLINED, t0, s)
         | Some u \<Rightarrow>
             if scheme u = None \<or> scheme u \<noteq> Some ''phyp'' then Some (Ret VIR_DRV_OPEN_DECLINED, t0, s)
             else if server u = None then Some (Ret VIR_DRV_OPEN_ERROR, t0, s)
             else (let (a1, s1) = call e P_alloc s in
               if r_rc a1 < 0 then Some (phypConnectOpen_failure None, t0, s1)
               else (let (a2, s2) = call e P_alloc s1 in
                 if r_rc a2 < 0 then Some (phypConnectOpen_failure None, t0, s2)
                 else (let (a3, s3) = call e P_alloc s2 in
                   if r_rc a3 < 0 then Some (phypConnectOpen_failure (Some t0), t0, s3)
                   else (let (failed, s4) =
                               (case path u of
                                  None \<Rightarrow> (False, s3)
                                | Some p \<Rightarrow>
                                    (let (a4, s') = call e P_alloc s3 in
                                     if r_rc a4 < 0 then (True, s')
                                     else (contains_specialcharacters p, s')))
                         in if failed then Some (phypConnectOpen_failure (Some t0), t0, s4)
                            else (let (ss, s5) = call e P_open_ssh_session s4 in
                                  if r_rc ss < 0 then Some (phypConnectOpen_failure (Some t0), t0, s5)
                                  else phypConnectOpen_session e s5))))))))"

section \<open>Test data\<close>

text \<open>An environment in which every call succeeds at once, no call delivers data and the
  channel accepts every byte it is offered; the bare system state; two identifiers.\<close>

definition reply_ok :: "prim \<Rightarrow> nat \<Rightarrow> resp" where
  "reply_ok p n =
     \<lparr>r_rc = (if p = P_channel_write then 1024 else 0), r_errno = 0, r_size = 0,
      r_data = [], r_ids = []\<rparr>"

definition env_ok :: env where
  "env_ok = \<lparr>reply = reply_ok, big_endian = False, SSH_CMD_ERR = -3\<rparr>"

definition sys0 :: sys where
  "sys0 = \<lparr>local_file = None, scp_sent = [], poll_events = [], calls = (\<lambda>p. 0)\<rparr>"

definition uuid_a :: "byte list" where "uuid_a = replicate 16 0xAA"
definition uuid_b :: "byte list" where "uuid_b = replicate 16 0xBB"

definition table2 :: uuid_table where
  "table2 = \<lparr>nlpars = 2, lpars = [Some \<lparr>lpar_uuid = uuid_a, lpar_id = 3\<rparr>,
                                    Some \<lparr>lpar_uuid = uuid_b, lpar_id = 7\<rparr>]\<rparr>"


declare phypExec_open.simps [code] phypExec_exec.simps [code] phypExec_read.simps [code]
  phypExec_close.simps [code] Push_open.simps [code] Push_write.simps [code]
  Pull_open.simps [code] Pull_chunks.simps [code] Pull_read.simps [code]

declare WriteFile_loop.simps [simp del] Push_blocks.simps [simp del]
  RemLpar_scan.simps [simp del] GetLparUUID_scan.simps [simp del]
  ReadFile_loop.simps [simp del] Init_fill.simps [simp del] contains_loop.simps [simp del]

section \<open>Predicates and scenarios of the claims\<close>

text \<open>A table as \<^verbatim>\<open>phypUUIDTable_Init\<close> and \<^verbatim>\<open>phypUUIDTable_AddLpar\<close> leave it when every
  allocation succeeds: as many slots as \<^verbatim>\<open>nlpars\<close> says, each pointing to an entry.\<close>

definition table_ok :: "uuid_table \<Rightarrow> bool" where
  "table_ok t = (nlpars t = length (lpars t) \<and> None \<notin> set (lpars t))"



definition tombstone :: "c_int \<Rightarrow> lpar option \<Rightarrow> lpar option" where
  "tombstone ident x =
     (case x of None \<Rightarrow> None
      | Some l \<Rightarrow> if lpar_id l = ident then Some \<lparr>lpar_uuid = memset_uuid (lpar_uuid l), lpar_id = -1\<rparr> else Some l)"



text \<open>A URI whose path holds a semicolon.\<close>

definition uri_bad :: virURI where
  "uri_bad = \<lparr>scheme = Some ''phyp'', server = Some ''hmc'', path = Some ''/sys;reboot'', user = Some ''hscroot''\<rparr>"

text \<open>An environment whose channel open says "would block" \<open>k\<close> times first.\<close>

definition reply_open_later :: "nat \<Rightarrow> prim \<Rightarrow> nat \<Rightarrow> resp" where
  "reply_open_later k p n =
     (if p = P_channel_open_session \<and> n < k then (reply_ok p n)\<lparr>r_rc := LIBSSH2_ERROR_EAGAIN\<rparr>
      else reply_ok p n)"

text \<open>An environment whose command prints two lines, with the code of the channel close
  and the exit status as given.\<close>

definition reply_exec :: "int \<Rightarrow> int \<Rightarrow> prim \<Rightarrow> nat \<Rightarrow> resp" where
  "reply_exec close_rc status p n =
     (if p = P_channel_read \<and> n = 0 then (reply_ok p n)\<lparr>r_data := [97, 10, 98]\<rparr>
      else if p = P_channel_close then (reply_ok p n)\<lparr>r_rc := close_rc\<rparr>
      else if p = P_channel_get_exit_status then (reply_ok p n)\<lparr>r_rc := status\<rparr>
      else reply_ok p n)"

definition env_exec :: "int \<Rightarrow> int \<Rightarrow> env" where
  "env_exec close_rc status = env_ok\<lparr>reply := reply_exec close_rc status\<rparr>"

text \<open>A buffer that holds the command of \<^verbatim>\<open>phypGetSystemType\<close>.\<close>

definition buf_lshmc :: virBuffer where
  "buf_lshmc = \<lparr>content = Some (map of_char ''lshmc -V''), error = False\<rparr>"

text \<open>An environment with one remote partition, identifier 5, in which the inbound copy
  channel opens with the given code and the first \<^verbatim>\<open>creat\<close> returns the given code; the
  remote file, when there is one, holds the entry of the partition.\<close>

definition reply_init :: "int \<Rightarrow> int \<Rightarrow> prim \<Rightarrow> nat \<Rightarrow> resp" where
  "reply_init recv_rc creat_rc p n =
     (if p = P_num_of_domains then (reply_ok p n)\<lparr>r_rc := 1\<rparr>
      else if p = P_list_domains then (reply_ok p n)\<lparr>r_rc := 1, r_ids := [5]\<rparr>
      else if p = P_scp_recv then (reply_ok p n)\<lparr>r_rc := recv_rc, r_size := 20\<rparr>
      else if p = P_creat \<and> n = 0 then (reply_ok p n)\<lparr>r_rc := creat_rc\<rparr>
      else if p = P_channel_read \<and> n = 0 then (reply_ok p n)\<lparr>r_data := [5, 0, 0, 0] @ replicate 16 0xAA\<rparr>
      else if p = P_uuid_generate then (reply_ok p n)\<lparr>r_data := replicate 16 0xBB\<rparr>
      else reply_ok p n)"

definition env_init :: "int \<Rightarrow> int \<Rightarrow> env" where
  "env_init recv_rc creat_rc = env_ok\<lparr>reply := reply_init recv_rc creat_rc\<rparr>"

definition table0 :: uuid_table where
  "table0 = \<lparr>nlpars = 0, lpars = []\<rparr>"

text \<open>The state in which \<^verbatim>\<open>phypUUIDTable_Init\<close> starts the pull: after the first
  enumeration, the allocation of \<^verbatim>\<open>ids\<close> and the second enumeration.\<close>

definition Init_before_pull :: "env \<Rightarrow> sys \<Rightarrow> sys" where
  "Init_before_pull e s = snd (call e P_list_domains (snd (call e P_alloc (snd (call e P_num_of_domains s)))))"

text \<open>The conditions of the round trip: every call on the local file and every
  allocation succeeds, and every entry holds 16 bytes of identifier. \<open>table_bytes\<close> is the
  file format in the words of the spec: per entry the id, then the uuid, with no header
  and no length field.\<close>

definition file_calls_succeed :: "env \<Rightarrow> bool" where
  "file_calls_succeed e =
     ((\<forall>n. 0 \<le> r_rc (reply e P_creat n)) \<and> (\<forall>n. 0 \<le> r_rc (reply e P_safewrite n))
      \<and> (\<forall>n. 0 \<le> r_rc (reply e P_close n)) \<and> (\<forall>n. 0 \<le> r_rc (reply e P_open n))
      \<and> (\<forall>n. 0 \<le> r_rc (reply e P_read n)) \<and> (\<forall>n. 0 \<le> r_rc (reply e P_alloc n)))"

definition uuids_ok :: "uuid_table \<Rightarrow> bool" where
  "uuids_ok t = list_all (\<lambda>x. length (lpar_uuid (the x)) = VIR_UUID_BUFLEN) (lpars t)"

definition entry_bytes :: "env \<Rightarrow> lpar option \<Rightarrow> byte list" where
  "entry_bytes e x = int_bytes e (lpar_id (the x)) @ lpar_uuid (the x)"

definition table_bytes :: "env \<Rightarrow> uuid_table \<Rightarrow> byte list" where
  "table_bytes e t = concat (map (entry_bytes e) (lpars t))"

text \<open>An environment whose channel answers every write with the given code, and the push
  of a given local file from the bare state: the return code with the bytes the channel
  accepted.\<close>

definition reply_write :: "int \<Rightarrow> prim \<Rightarrow> nat \<Rightarrow> resp" where
  "reply_write k p n = (if p = P_channel_write then (reply_ok p n)\<lparr>r_rc := k\<rparr> else reply_ok p n)"

definition push_file :: "env \<Rightarrow> byte list \<Rightarrow> (int result \<times> byte list) option" where
  "push_file e f =
     map_option (\<lambda>(r, s). (r, scp_sent s)) (phypUUIDTable_Push e (sys0\<lparr>local_file := Some f\<rparr>))"

text \<open>The outbound copy channel stops saying "would block": from some call on, no reply of
  \<^verbatim>\<open>libssh2_scp_send\<close> is \<^verbatim>\<open>LIBSSH2_ERROR_EAGAIN\<close>.\<close>

definition scp_send_settles :: "env \<Rightarrow> bool" where
  "scp_send_settles e = (\<exists>N. \<forall>n. r_rc (reply e P_scp_send (N + n)) \<noteq> LIBSSH2_ERROR_EAGAIN)"

text \<open>What \<^verbatim>\<open>phypUUIDTable_Init\<close> leaves behind when it starts from the empty table in the
  initial state: the entries of the table, and the bytes pushed to the remote file.\<close>

definition Init_entries :: "env \<Rightarrow> lpar option list option" where
  "Init_entries e = map_option (lpars \<circ> fst \<circ> snd) (phypUUIDTable_Init e table0 sys0)"

definition Init_pushed :: "env \<Rightarrow> byte list option" where
  "Init_pushed e = map_option (scp_sent \<circ> snd \<circ> snd) (phypUUIDTable_Init e table0 sys0)"

text \<open>An environment in which the allocation with the given number fails.\<close>

definition reply_alloc_fails :: "nat \<Rightarrow> prim \<Rightarrow> nat \<Rightarrow> resp" where
  "reply_alloc_fails k p n =
     (if p = P_alloc \<and> n = k then (reply_ok p n)\<lparr>r_rc := -1\<rparr> else reply_ok p n)"

section \<open>Properties\<close>

lemma slot_Some: "i < length (lpars t) \<Longrightarrow> None \<notin> set (lpars t) \<Longrightarrow> slot t i = Ret (the (lpars t ! i))"
  by (cases "lpars t ! i") (auto simp: slot_def dest: nth_mem)

lemma slot_past_end: "length (lpars t) \<le> i \<Longrightarrow> slot t i = Fault"
  by (simp add: slot_def)

lemma tombstone_Some: "x \<noteq> None \<Longrightarrow> tombstone ident x \<noteq> None"
  by (cases x) (auto simp: tombstone_def)

lemma RemLpar_scan_faults:
  "length (lpars t) \<le> nlpars t \<Longrightarrow> i \<le> length (lpars t) \<Longrightarrow> fst (RemLpar_scan ident i t) = Fault"
proof (induction ident i t rule: RemLpar_scan.induct)
  case (1 ident i t)
  show ?case
  proof (cases "slot t i")
    case Fault
    with 1 show ?thesis by (subst RemLpar_scan.simps) simp
  next
    case (Ret l)
    then have lt: "i < length (lpars t)" by (auto simp: slot_def split: if_splits)
    with 1 Ret show ?thesis
      by (subst RemLpar_scan.simps) (auto)
  qed
qed

lemma RemLpar_scan_nlpars: "nlpars (snd (RemLpar_scan ident i t)) = nlpars t"
  apply (induction ident i t rule: RemLpar_scan.induct)
  apply (subst RemLpar_scan.simps)
  apply (auto split: result.splits)
  done

lemma RemLpar_scan_length: "length (lpars (snd (RemLpar_scan ident i t))) = length (lpars t)"
  apply (induction ident i t rule: RemLpar_scan.induct)
  apply (subst RemLpar_scan.simps)
  apply (auto split: result.splits)
  done



lemma realloc_append:
  "length xs = n \<Longrightarrow> (take (n + 1) (xs @ replicate (n + 1) None))[n := v] = xs @ [v]"
  by (simp add: list_update_append)

lemmas eval_defs = call_def reply_ok_def env_ok_def sys0_def table2_def uuid_a_def uuid_b_def
  slot_def memcpy_uuid_def memset_uuid_def zero_lpar_def VIR_UUID_BUFLEN_def
  safewrite_def int_bytes_def be_bytes_def phypUUIDTable_WriteFile_def
  Push_buffer0_def phypUUIDTable_Push_def persist_def phypUUIDTable_RemLpar_def
  phypUUIDTable_AddLpar_def phypGetLparUUID_def LIBSSH2_ERROR_EAGAIN_def Let_def
  WriteFile_loop.simps Push_blocks.simps Push_open.simps Push_write.simps
  RemLpar_scan.simps GetLparUUID_scan.simps

lemma RemLpar_returns:
  "length (lpars t) \<le> nlpars t \<Longrightarrow>
   phypUUIDTable_RemLpar e ident t s = Some (Fault, snd (RemLpar_scan ident 0 t), s)"
  using RemLpar_scan_faults[of t 0 ident]
  by (cases "RemLpar_scan ident 0 t") (simp add: phypUUIDTable_RemLpar_def)

text \<open>
  Claim C1, a defect of the code. The claim wants the scan of \<^verbatim>\<open>phypUUIDTable_RemLpar\<close> to
  stay at the indices \<open>0..N-1\<close>. The bound of the loop is \<^verbatim>\<open>i <= nlpars\<close>: on every table
  with no more slots than \<^verbatim>\<open>nlpars\<close> says, which is every table the driver builds, the
  scan reads the slot past the last one, for every identifier, and the function never
  comes to rewrite the file.
\<close>

theorem RemLpar_scan_leaves_array:
  "length (lpars t) \<le> nlpars t \<Longrightarrow>
   \<exists>t'. phypUUIDTable_RemLpar e ident t s = Some (Fault, t', s)"
  by (simp add: RemLpar_returns)

theorem RemLpar_scan_leaves_array_witness:
  "length (lpars table2) \<le> nlpars table2 \<and>
   (\<exists>t'. phypUUIDTable_RemLpar env_ok 3 table2 sys0 = Some (Fault, t', sys0))"
  using RemLpar_scan_leaves_array[of table2 env_ok 3 sys0] by (simp add: table2_def)


lemma AddLpar_nlpars:
  "phypUUIDTable_AddLpar e uuid ident t s = Some (r, t', s') \<Longrightarrow> nlpars t' = nlpars t + 1"
  by (auto simp: phypUUIDTable_AddLpar_def Let_def split: prod.splits if_splits)

lemma RemLpar_nlpars:
  "phypUUIDTable_RemLpar e ident t s = Some (r, t', s') \<Longrightarrow>
   nlpars t' = nlpars t \<and> length (lpars t') = length (lpars t)"
  using RemLpar_scan_nlpars[of ident 0 t] RemLpar_scan_length[of ident 0 t]
  by (cases "RemLpar_scan ident 0 t") (auto simp: phypUUIDTable_RemLpar_def split: result.splits)




lemma contains_loop_drop:
  "contains_loop src i \<longleftrightarrow> (set (drop i src) \<inter> set SPECIALCHARACTER_CASES \<noteq> {})"
proof (induction src i rule: contains_loop.induct)
  case (1 src i)
  show ?case
  proof (cases "i < length src")
    case False
    then show ?thesis by (subst contains_loop.simps) simp
  next
    case True
    then have dr: "drop i src = src ! i # drop (Suc i) src" by (simp add: Cons_nth_drop_Suc)
    show ?thesis
    proof (cases "src ! i \<in> set SPECIALCHARACTER_CASES")
      case True
      with \<open>i < length src\<close> dr show ?thesis by (subst contains_loop.simps) auto
    next
      case False
      with 1[OF True False] True dr show ?thesis by (subst contains_loop.simps) auto
    qed
  qed
qed

lemma contains_specialcharacters_iff:
  "contains_specialcharacters src \<longleftrightarrow> (set src \<inter> set SPECIALCHARACTER_CASES \<noteq> {})"
  by (cases "src = []") (simp_all add: contains_specialcharacters_def contains_loop_drop)

lemma phypConnectOpen_special:
  assumes p: "path u = Some p" and sp: "contains_specialcharacters p"
  shows "\<exists>st s'. phypConnectOpen e fr (Some \<lparr>uri = Some u\<rparr>) s = Some (Ret st, \<lparr>nlpars = 0, lpars = []\<rparr>, s')
           \<and> st \<noteq> VIR_DRV_OPEN_SUCCESS
           \<and> calls s' P_open_ssh_session = calls s P_open_ssh_session
           \<and> (\<not> fr \<and> scheme u = Some ''phyp'' \<and> server u \<noteq> None \<longrightarrow> st = VIR_DRV_OPEN_ERROR)"
  using p sp
  by (auto simp: phypConnectOpen_def phypConnectOpen_failure_def phypUUIDTable_Free_def
        Let_def call_def split: prod.splits option.splits)

text \<open>
  Claim C10. When the path of the URI holds one of the characters of
  \<^verbatim>\<open>SPECIALCHARACTER_CASES\<close>, \<^verbatim>\<open>phypConnectOpen\<close> returns, does not return
  \<^verbatim>\<open>VIR_DRV_OPEN_SUCCESS\<close>, and has not called \<^verbatim>\<open>openSSHSession\<close>; for a \<^verbatim>\<open>phyp\<close> URI with
  a server and accepted flags the result is \<^verbatim>\<open>VIR_DRV_OPEN_ERROR\<close>. A path that is not
  empty and holds none of the characters passes \<^verbatim>\<open>contains_specialcharacters\<close>.
\<close>

theorem special_path_fails_before_ssh:
  "(path u = Some p \<and> (\<exists>c \<in> set p. c \<in> set SPECIALCHARACTER_CASES) \<longrightarrow>
      (\<exists>st s'. phypConnectOpen e fr (Some \<lparr>uri = Some u\<rparr>) s = Some (Ret st, \<lparr>nlpars = 0, lpars = []\<rparr>, s')
           \<and> st \<noteq> VIR_DRV_OPEN_SUCCESS
           \<and> calls s' P_open_ssh_session = calls s P_open_ssh_session
           \<and> (\<not> fr \<and> scheme u = Some ''phyp'' \<and> server u \<noteq> None \<longrightarrow> st = VIR_DRV_OPEN_ERROR)))
   \<and> (q \<noteq> [] \<and> (\<forall>c \<in> set q. c \<notin> set SPECIALCHARACTER_CASES) \<longrightarrow> \<not> contains_specialcharacters q)"
proof (intro conjI impI)
  assume h: "path u = Some p \<and> (\<exists>c \<in> set p. c \<in> set SPECIALCHARACTER_CASES)"
  then have "contains_specialcharacters p" by (auto simp: contains_specialcharacters_iff)
  with h show "\<exists>st s'. phypConnectOpen e fr (Some \<lparr>uri = Some u\<rparr>) s = Some (Ret st, \<lparr>nlpars = 0, lpars = []\<rparr>, s')
           \<and> st \<noteq> VIR_DRV_OPEN_SUCCESS
           \<and> calls s' P_open_ssh_session = calls s P_open_ssh_session
           \<and> (\<not> fr \<and> scheme u = Some ''phyp'' \<and> server u \<noteq> None \<longrightarrow> st = VIR_DRV_OPEN_ERROR)"
    using phypConnectOpen_special by blast
next
  assume "q \<noteq> [] \<and> (\<forall>c \<in> set q. c \<notin> set SPECIALCHARACTER_CASES)"
  then show "\<not> contains_specialcharacters q" by (auto simp: contains_specialcharacters_iff)
qed

theorem special_path_fails_before_ssh_witness:
  "path uri_bad = Some ''/sys;reboot'' \<and> (\<exists>c \<in> set ''/sys;reboot''. c \<in> set SPECIALCHARACTER_CASES)
   \<and> (\<exists>s'. phypConnectOpen env_ok False (Some \<lparr>uri = Some uri_bad\<rparr>) sys0
              = Some (Ret VIR_DRV_OPEN_ERROR, \<lparr>nlpars = 0, lpars = []\<rparr>, s')
           \<and> calls s' P_open_ssh_session = 0)
   \<and> ''/sys'' \<noteq> [] \<and> set ''/sys'' \<inter> set SPECIALCHARACTER_CASES = {}
   \<and> \<not> contains_specialcharacters ''/sys''"
proof -
  have a: "path uri_bad = Some ''/sys;reboot'' \<and> (\<exists>c \<in> set ''/sys;reboot''. c \<in> set SPECIALCHARACTER_CASES)"
    by (simp add: uri_bad_def SPECIALCHARACTER_CASES_def)
  have b: "''/sys'' \<noteq> [] \<and> (\<forall>c \<in> set ''/sys''. c \<notin> set SPECIALCHARACTER_CASES)"
    by (simp add: SPECIALCHARACTER_CASES_def)
  have c: "\<not> False \<and> scheme uri_bad = Some ''phyp'' \<and> server uri_bad \<noteq> None" by (simp add: uri_bad_def)
  from special_path_fails_before_ssh[of uri_bad "''/sys;reboot''" env_ok False sys0 "''/sys''"] a b c
  show ?thesis by (auto simp: sys0_def)
qed

lemma waitsocket_calls:
  "calls (snd (waitsocket e s)) p =
     (if p = P_poll \<or> p = P_session_block_directions then Suc (calls s p) else calls s p)"
  by (simp add: waitsocket_def call_def Let_def)

lemma waitsocket_result:
  "fst (waitsocket e s) = (r_rc (reply e P_poll (calls s P_poll)), r_errno (reply e P_poll (calls s P_poll)))"
  by (simp add: waitsocket_def call_def Let_def)

lemma waitsocket_events:
  "length (poll_events (snd (waitsocket e s))) = Suc (length (poll_events s))"
  by (simp add: waitsocket_def call_def Let_def)

lemma call_calls:
  "calls (snd (call e p s)) q = (if q = p then Suc (calls s q) else calls s q)"
  by (simp add: call_def)

lemma call_events: "poll_events (snd (call e p s)) = poll_events s"
  by (simp add: call_def)

lemma call_reply: "fst (call e p s) = reply e p (calls s p)"
  by (simp add: call_def)

lemmas exec_defs = phypExec_def phypExec_run_def phypExec_drain_def phypExec_finish_def
  phypExec_err_def phypExec_open.simps phypExec_exec.simps phypExec_read.simps
  phypExec_close.simps virBufferAdd_strlen_def VIR_BUFFER_INITIALIZER_def buffer_size_def
  waitsocket_def wait_failed_def call_def Let_def LIBSSH2_ERROR_EAGAIN_def
  env_exec_def reply_exec_def reply_ok_def env_ok_def sys0_def

lemma phypExec_example:
  "\<exists>s'. phypExec (env_exec 0 status) (Some c) 0 sys0 = Some (Ret (Some [97, 10, 98], status), s')"
  by (simp add: exec_defs)

lemma phypExec_NULL_command:
  "phypExec e None st s \<noteq> Some (Ret (Some out, code), s')"
  by (simp add: phypExec_def phypExec_run_def phypExec_err_def Let_def
      split: prod.splits option.splits step.splits)

lemma phypExecBuffer_NULL_command:
  "\<exists>s'. phypExecBuffer env_ok VIR_BUFFER_INITIALIZER 0 strip_newline sys0 = Some (Fault, s')"
  by (simp add: phypExecBuffer_def phypExec_def phypExec_run_def phypExec_open.simps
      VIR_BUFFER_INITIALIZER_def call_def Let_def env_ok_def reply_ok_def sys0_def)

text \<open>
  Claim C4. When \<^verbatim>\<open>phypExec\<close> returns an output and an exit status for the command that
  the buffer holds: with exit status 0 and \<^verbatim>\<open>strip_newline\<close> set, \<^verbatim>\<open>phypExecBuffer\<close> returns
  the output cut at its first newline; with exit status 0 and \<^verbatim>\<open>strip_newline\<close> clear it
  returns the output as it is; with an exit status other than 0 it returns the output as
  it is, whatever \<^verbatim>\<open>strip_newline\<close> says. The exit status is passed on. The command is the
  content of the buffer as \<^verbatim>\<open>phypExec\<close> receives it, so the buffer holds one: for a buffer
  without content \<^verbatim>\<open>phypExec\<close> returns no output (\<open>phypExec_NULL_command\<close>).
\<close>

theorem ExecBuffer_strips_only_on_success:
  assumes "\<not> error buf"
    and "phypExec e (content buf) st s = Some (Ret (Some out, code), s')"
  shows "(code = 0 \<longrightarrow>
            phypExecBuffer e buf st True s = Some (Ret (Some (takeWhile (\<lambda>b. b \<noteq> 10) out), 0), s')
          \<and> phypExecBuffer e buf st False s = Some (Ret (Some out, 0), s'))
       \<and> (code \<noteq> 0 \<longrightarrow>
            phypExecBuffer e buf st strip_newline s = Some (Ret (Some out, code), s'))"
  using assms by (simp add: phypExecBuffer_def)

theorem ExecBuffer_strips_only_on_success_witness:
  "\<not> error buf_lshmc
   \<and> content buf_lshmc = Some (map of_char ''lshmc -V'')
   \<and> (\<exists>s'. phypExec (env_exec 0 0) (content buf_lshmc) 0 sys0 = Some (Ret (Some [97, 10, 98], 0), s')
          \<and> phypExecBuffer (env_exec 0 0) buf_lshmc 0 True sys0 = Some (Ret (Some [97], 0), s')
          \<and> phypExecBuffer (env_exec 0 0) buf_lshmc 0 False sys0 = Some (Ret (Some [97, 10, 98], 0), s'))
   \<and> (\<exists>s'. phypExec (env_exec 0 2) (content buf_lshmc) 0 sys0 = Some (Ret (Some [97, 10, 98], 2), s')
          \<and> phypExecBuffer (env_exec 0 2) buf_lshmc 0 True sys0
               = Some (Ret (Some [97, 10, 98], 2), s'))"
proof -
  have nb: "\<not> error buf_lshmc" by (simp add: buf_lshmc_def)
  have c: "content buf_lshmc = Some (map of_char ''lshmc -V'')" by (simp add: buf_lshmc_def)
  obtain s0 where a: "phypExec (env_exec 0 0) (content buf_lshmc) 0 sys0
                        = Some (Ret (Some [97, 10, 98], 0), s0)"
    unfolding c using phypExec_example[of 0] by blast
  obtain s2 where b: "phypExec (env_exec 0 2) (content buf_lshmc) 0 sys0
                        = Some (Ret (Some [97, 10, 98], 2), s2)"
    unfolding c using phypExec_example[of 2] by blast
  from ExecBuffer_strips_only_on_success[OF nb a]
  have "phypExecBuffer (env_exec 0 0) buf_lshmc 0 True sys0 = Some (Ret (Some [97], 0), s0)
      \<and> phypExecBuffer (env_exec 0 0) buf_lshmc 0 False sys0 = Some (Ret (Some [97, 10, 98], 0), s0)"
    by simp
  moreover from ExecBuffer_strips_only_on_success[OF nb b, of True]
  have "phypExecBuffer (env_exec 0 2) buf_lshmc 0 True sys0
          = Some (Ret (Some [97, 10, 98], 2), s2)"
    by simp
  ultimately show ?thesis using nb c a b by blast
qed

lemma close_result_no_would_block:
  assumes "phypExec_close e s = Some y"
  shows "fst y \<noteq> Done LIBSSH2_ERROR_EAGAIN"
proof (rule phypExec_close.raw_induct[where P = "\<lambda>e s y. fst y \<noteq> Done LIBSSH2_ERROR_EAGAIN", OF _ assms])
  fix f e s y
  assume ih: "\<And>e s y. f e s = Some y \<Longrightarrow> fst y \<noteq> Done LIBSSH2_ERROR_EAGAIN"
    and step: "(let (r, s1) = call e P_channel_close s in
      if r_rc r = LIBSSH2_ERROR_EAGAIN then
        (let (w, s2) = waitsocket e s1 in
         if wait_failed w then Some (WaitFailed, s2) else f e s2)
      else Some (Done (r_rc r), s1)) = Some y"
  from step show "fst y \<noteq> Done LIBSSH2_ERROR_EAGAIN"
    by (auto simp: Let_def split: prod.splits if_splits dest: ih)
qed

lemma close_returns_no_would_block:
  "phypExec_close e s = Some (Done rc, s1) \<Longrightarrow> rc \<noteq> LIBSSH2_ERROR_EAGAIN"
  using close_result_no_would_block[of e s "(Done rc, s1)"] by auto

text \<open>
  Claim C5, as amended. When the close loop of \<^verbatim>\<open>phypExec\<close> ends with a code, the code is
  not "would block"; with the code 0 the exit status \<^verbatim>\<open>phypExec\<close> returns is the one
  \<^verbatim>\<open>libssh2_channel_get_exit_status\<close> reports, and with any other code it is 127 and the
  channel is not asked. 127 is also a status a remote command reports (the driver reads
  it as its constant \<^verbatim>\<open>IVM\<close>), so it does not tell a failed close from a command.
\<close>

theorem exit_status_after_close:
  assumes "phypExec_close e s = Some (Done rc, s1)"
  shows "rc \<noteq> LIBSSH2_ERROR_EAGAIN
       \<and> (rc = 0 \<longrightarrow>
            (\<exists>ret. phypExec_finish e tex_ret s =
               Some (Ret (ret, r_rc (reply e P_channel_get_exit_status (calls s1 P_channel_get_exit_status))),
                     snd (call e P_channel_get_exit_status s1))))
       \<and> (rc \<noteq> 0 \<longrightarrow> (\<exists>ret. phypExec_finish e tex_ret s = Some (Ret (ret, 127), s1)))
       \<and> IVM = 127"
  using assms close_returns_no_would_block[OF assms]
  by (simp add: phypExec_finish_def call_def IVM_def)

theorem exit_status_after_close_witness:
  "phypExec_close (env_exec 0 5) sys0 = Some (Done 0, snd (call (env_exec 0 5) P_channel_close sys0))
   \<and> (\<exists>ret s2. phypExec_finish (env_exec 0 5) VIR_BUFFER_INITIALIZER sys0 = Some (Ret (ret, 5), s2))
   \<and> phypExec_close (env_exec (-1) 5) sys0 = Some (Done (-1), snd (call (env_exec (-1) 5) P_channel_close sys0))
   \<and> (\<exists>ret s2. phypExec_finish (env_exec (-1) 5) VIR_BUFFER_INITIALIZER sys0 = Some (Ret (ret, 127), s2))"
proof -
  have a: "phypExec_close (env_exec 0 5) sys0 = Some (Done 0, snd (call (env_exec 0 5) P_channel_close sys0))"
    by (simp add: exec_defs)
  have b: "phypExec_close (env_exec (-1) 5) sys0 = Some (Done (-1), snd (call (env_exec (-1) 5) P_channel_close sys0))"
    by (simp add: exec_defs)
  have c: "r_rc (reply (env_exec 0 5) P_channel_get_exit_status n) = 5" for n
    by (simp add: env_exec_def reply_exec_def)
  from exit_status_after_close[OF a, of VIR_BUFFER_INITIALIZER] exit_status_after_close[OF b, of VIR_BUFFER_INITIALIZER]
  show ?thesis using a b c by auto
qed

theorem exit_status_127_counterexample:
  "map_option fst (phypExec (env_exec 0 127) (Some []) 0 sys0) = Some (Ret (Some [97, 10, 98], 127))
   \<and> r_rc (reply (env_exec 0 127) P_channel_close 0) = 0
   \<and> map_option fst (phypExec (env_exec (-1) 0) (Some []) 0 sys0) = Some (Ret (Some [97, 10, 98], 127))
   \<and> r_rc (reply (env_exec (-1) 0) P_channel_close 0) = -1
   \<and> map_option fst (phypExec (env_exec (-1) 127) (Some []) 0 sys0) = Some (Ret (Some [97, 10, 98], 127))
   \<and> r_rc (reply (env_exec (-1) 127) P_channel_get_exit_status 0) = 127"
  by (simp add: exec_defs)

lemmas pull_defs = phypUUIDTable_Pull_def Pull_open.simps Pull_chunks.simps Pull_read.simps
  phypUUIDTable_Init_def Init_create_def Init_cleanup_def Init_fill.simps
  phypUUIDTable_ReadFile_def ReadFile_loop.simps fd_read_def bytes_int_def be_int_def
  waitsocket_def wait_failed_def env_init_def reply_init_def table0_def Init_before_pull_def

lemma Pull_zero_or_minus_one:
  "phypUUIDTable_Pull e s = Some (r, s') \<Longrightarrow> r = 0 \<or> r = -1"
  by (auto simp: phypUUIDTable_Pull_def Let_def split: prod.splits if_splits option.splits bool.splits)

lemma Pull_open_hard_failure:
  assumes "\<forall>i<K. r_rc (reply e P_scp_recv (calls s P_scp_recv + i)) = LIBSSH2_ERROR_EAGAIN"
    and "r_rc (reply e P_scp_recv (calls s P_scp_recv + K)) \<noteq> 0"
    and "r_rc (reply e P_scp_recv (calls s P_scp_recv + K)) \<noteq> LIBSSH2_ERROR_EAGAIN"
    and "\<forall>n. 0 \<le> r_rc (reply e P_poll n)"
  shows "\<exists>s'. Pull_open e s = Some (None, s')"
  using assms
proof (induction K arbitrary: s)
  case 0
  then show ?case by (subst Pull_open.simps) (simp add: call_def)
next
  case (Suc K)
  let ?s1 = "snd (call e P_scp_recv s)"
  let ?s2 = "snd (waitsocket e ?s1)"
  have r0: "r_rc (reply e P_scp_recv (calls s P_scp_recv)) = LIBSSH2_ERROR_EAGAIN"
    using Suc.prems(1) by (metis add.right_neutral zero_less_Suc)
  have nf: "\<not> wait_failed (fst (waitsocket e ?s1))"
    using Suc.prems(4) by (simp add: wait_failed_def waitsocket_result not_less[symmetric])
  have c2: "calls ?s2 P_scp_recv = Suc (calls s P_scp_recv)"
    by (simp add: waitsocket_calls call_calls)
  have p1: "\<forall>i<K. r_rc (reply e P_scp_recv (calls ?s2 P_scp_recv + i)) = LIBSSH2_ERROR_EAGAIN"
    using Suc.prems(1) unfolding c2 by (metis Suc_less_eq add_Suc_shift)
  have p2: "r_rc (reply e P_scp_recv (calls ?s2 P_scp_recv + K)) \<noteq> 0"
    "r_rc (reply e P_scp_recv (calls ?s2 P_scp_recv + K)) \<noteq> LIBSSH2_ERROR_EAGAIN"
    using Suc.prems(2,3) unfolding c2 by simp_all
  have step: "Pull_open e s = Pull_open e ?s2"
    using r0 nf
    by (subst Pull_open.simps)
       (simp add: split_beta call_reply LIBSSH2_ERROR_EAGAIN_def Let_def)
  show ?case unfolding step by (rule Suc.IH[OF p1 p2 Suc.prems(4)])
qed

lemma Pull_hard_open_failure:
  assumes "0 \<le> r_rc (reply e P_alloc (calls s P_alloc))"
    and "\<forall>i<K. r_rc (reply e P_scp_recv (calls s P_scp_recv + i)) = LIBSSH2_ERROR_EAGAIN"
    and "r_rc (reply e P_scp_recv (calls s P_scp_recv + K)) \<noteq> 0"
    and "r_rc (reply e P_scp_recv (calls s P_scp_recv + K)) \<noteq> LIBSSH2_ERROR_EAGAIN"
    and "\<forall>n. 0 \<le> r_rc (reply e P_poll n)"
  shows "\<exists>s'. phypUUIDTable_Pull e s = Some (-1, s')"
proof -
  let ?s1 = "snd (call e P_alloc s)"
  have c: "calls ?s1 P_scp_recv = calls s P_scp_recv" by (simp add: call_calls)
  obtain s' where "Pull_open e ?s1 = Some (None, s')"
    using Pull_open_hard_failure[of K e ?s1] assms(2-5) unfolding c by blast
  then show ?thesis using assms(1)
    by (simp add: phypUUIDTable_Pull_def split_beta call_reply Let_def not_less[symmetric])
qed

lemma Pull_creat_failure:
  assumes "0 \<le> r_rc (reply e P_alloc (calls s P_alloc))"
    and "Pull_open e (snd (call e P_alloc s)) = Some (Some st_size, s2)"
    and "r_rc (reply e P_creat (calls s2 P_creat)) < 0"
  shows "phypUUIDTable_Pull e s = Some (-1, snd (call e P_creat s2))"
  using assms
  by (simp add: phypUUIDTable_Pull_def split_beta call_reply Let_def not_less[symmetric])

lemma Init_branch:
  assumes "0 < r_rc (reply e P_num_of_domains (calls s P_num_of_domains))"
    and "0 \<le> r_rc (reply e P_alloc (calls s P_alloc))"
    and "r_rc (reply e P_list_domains (calls s P_list_domains))
           = r_rc (reply e P_num_of_domains (calls s P_num_of_domains))"
    and "phypUUIDTable_Pull e (Init_before_pull e s) = Some (pulled, s4)"
    and "phypUUIDTable_Init e t s = Some ((r, created), t', s')"
  shows "(created \<longleftrightarrow> pulled = -1) \<and>
         (\<not> created \<longrightarrow> pulled = 0 \<and>
            (t', s') = snd (phypUUIDTable_ReadFile e
               (t\<lparr>nlpars := nat (r_rc (reply e P_list_domains (calls s P_list_domains)))\<rparr>) s4))"
  using assms Pull_zero_or_minus_one[OF assms(4)]
  by (auto simp: phypUUIDTable_Init_def Init_before_pull_def split_beta call_reply call_calls Let_def
           split: if_splits option.splits)

lemma Pull_examples:
  "\<exists>s'. phypUUIDTable_Pull (env_init 0 0) sys0 = Some (0, s')"
  "\<exists>s2. Pull_open (env_init 0 (-1)) (snd (call (env_init 0 (-1)) P_alloc sys0)) = Some (Some 20, s2)
        \<and> calls s2 P_creat = 0"
  "\<exists>s'. phypUUIDTable_Pull (env_init 0 0) (Init_before_pull (env_init 0 0) sys0) = Some (0, s')"
  "\<exists>s'. phypUUIDTable_Pull (env_init (-1) 0) (Init_before_pull (env_init (-1) 0) sys0) = Some (-1, s')"
  by (simp_all add: pull_defs eval_defs)

lemma Init_examples:
  "\<exists>t' s'. phypUUIDTable_Init (env_init 0 0) table0 sys0 = Some ((Ret 0, False), t', s')"
  "\<exists>t' s'. phypUUIDTable_Init (env_init (-1) 0) table0 sys0 = Some ((Ret 0, True), t', s')"
  by (simp_all add: pull_defs eval_defs)

lemma Init_example_results:
  "\<exists>ri created t' s'. phypUUIDTable_Init (env_init 0 0) table0 sys0 = Some ((ri, created), t', s')"
  "\<exists>ri created t' s'. phypUUIDTable_Init (env_init (-1) 0) table0 sys0 = Some ((ri, created), t', s')"
  using Init_examples by blast+

lemma be_int_be_bytes: "be_int (be_bytes x) = x"
proof -
  have "push_bit 8 (push_bit 8 (push_bit 8 (ucast (ucast (drop_bit 24 x) :: byte) :: c_int)
            OR ucast (ucast (drop_bit 16 x) :: byte))
            OR ucast (ucast (drop_bit 8 x) :: byte))
          OR ucast (ucast x :: byte) = x"
  proof (rule bit_word_eqI)
    fix n assume n: "n < LENGTH(32)"
    consider "n < 8" | "8 \<le> n" "n < 16" | "16 \<le> n" "n < 24" | "24 \<le> n" "n < 32"
      using n by fastforce
    then show "bit (push_bit 8 (push_bit 8 (push_bit 8 (ucast (ucast (drop_bit 24 x) :: byte) :: c_int)
            OR ucast (ucast (drop_bit 16 x) :: byte))
            OR ucast (ucast (drop_bit 8 x) :: byte))
          OR ucast (ucast x :: byte)) n = bit x n"
      by cases (auto simp: bit_simps)
  qed
  then show ?thesis by (simp add: be_int_def be_bytes_def)
qed

lemma bytes_int_int_bytes: "bytes_int e (int_bytes e x) = x"
  by (simp add: bytes_int_def int_bytes_def be_int_be_bytes)

lemma length_int_bytes: "length (int_bytes e x) = 4"
  by (simp add: int_bytes_def be_bytes_def)

lemma safewrite_ok:
  assumes "0 \<le> r_rc (reply e P_safewrite (calls s P_safewrite))" and "local_file s = Some f"
  shows "\<exists>s'. safewrite e bs s = (int (length bs), s') \<and> local_file s' = Some (f @ bs)"
  using assms by (simp add: safewrite_def call_def Let_def not_less[symmetric])

lemma WriteFile_loop_ok:
  assumes "table_ok t" and "uuids_ok t" and "\<forall>n. 0 \<le> r_rc (reply e P_safewrite n)"
  shows "local_file s = Some f \<Longrightarrow> i \<le> nlpars t \<Longrightarrow>
         \<exists>s'. WriteFile_loop e t i s = (Ret 0, s')
           \<and> local_file s' = Some (f @ concat (map (entry_bytes e) (drop i (lpars t))))"
proof (induction "nlpars t - i" arbitrary: i s f)
  case 0
  with assms(1) show ?case
    by (subst WriteFile_loop.simps) (simp add: table_ok_def)
next
  case (Suc k)
  from Suc(2) have lt: "i < nlpars t" by simp
  from assms(1) lt have li: "i < length (lpars t)" and nn: "None \<notin> set (lpars t)"
    by (simp_all add: table_ok_def)
  define l where "l = the (lpars t ! i)"
  have sl: "slot t i = Ret l" unfolding l_def by (rule slot_Some[OF li nn])
  have ul: "length (lpar_uuid l) = VIR_UUID_BUFLEN"
    using assms(2) li unfolding l_def uuids_ok_def by (simp add: list_all_length)
  obtain s1 where w1: "safewrite e (int_bytes e (lpar_id l)) s = (4, s1)"
    and f1: "local_file s1 = Some (f @ int_bytes e (lpar_id l))"
    using safewrite_ok[OF _ Suc(3), of e "int_bytes e (lpar_id l)"] assms(3)
    by (auto simp: length_int_bytes)
  obtain s2 where w2: "safewrite e (take VIR_UUID_BUFLEN (lpar_uuid l)) s1 = (int VIR_UUID_BUFLEN, s2)"
    and f2: "local_file s2 = Some ((f @ int_bytes e (lpar_id l)) @ lpar_uuid l)"
    using safewrite_ok[OF _ f1, of e "take VIR_UUID_BUFLEN (lpar_uuid l)"] assms(3) ul
    by auto
  have k: "k = nlpars t - Suc i" using Suc(2) by simp
  obtain s' where r: "WriteFile_loop e t (Suc i) s2 = (Ret 0, s')"
    and f': "local_file s' = Some (((f @ int_bytes e (lpar_id l)) @ lpar_uuid l)
                 @ concat (map (entry_bytes e) (drop (Suc i) (lpars t))))"
    using Suc(1)[OF k f2] lt by auto
  have dr: "drop i (lpars t) = lpars t ! i # drop (Suc i) (lpars t)"
    using li by (simp add: Cons_nth_drop_Suc)
  have "WriteFile_loop e t i s = (Ret 0, s')"
    using lt sl w1 w2 r by (subst WriteFile_loop.simps) simp
  moreover have "local_file s' = Some (f @ concat (map (entry_bytes e) (drop i (lpars t))))"
    unfolding f' dr by (simp add: entry_bytes_def l_def)
  ultimately show ?case by blast
qed

lemma WriteFile_ok:
  assumes "table_ok t" and "uuids_ok t" and "file_calls_succeed e"
  shows "\<exists>s'. phypUUIDTable_WriteFile e t s = (Ret 0, s') \<and> local_file s' = Some (table_bytes e t)"
proof -
  let ?s1 = "(snd (call e P_creat s))\<lparr>local_file := Some []\<rparr>"
  from assms(3) have sw: "\<forall>n. 0 \<le> r_rc (reply e P_safewrite n)"
    and cr: "\<forall>n. 0 \<le> r_rc (reply e P_creat n)" and cl: "\<forall>n. 0 \<le> r_rc (reply e P_close n)"
    by (simp_all add: file_calls_succeed_def)
  obtain s2 where r: "WriteFile_loop e t 0 ?s1 = (Ret 0, s2)"
    and f: "local_file s2 = Some (table_bytes e t)"
    using WriteFile_loop_ok[OF assms(1,2) sw, of ?s1 "[]" 0] by (auto simp: table_bytes_def)
  show ?thesis
    using r f cr cl
    by (simp add: phypUUIDTable_WriteFile_def split_beta call_reply Let_def not_less[symmetric])
       (simp add: call_def)
qed

lemma length_entries_bytes:
  "list_all (\<lambda>x. length (lpar_uuid (the x)) = VIR_UUID_BUFLEN) xs \<Longrightarrow>
   length (concat (map (entry_bytes e) xs)) = length xs * (4 + VIR_UUID_BUFLEN)"
  by (induction xs) (simp_all add: entry_bytes_def length_int_bytes)

lemma length_table_bytes:
  "uuids_ok t \<Longrightarrow> length (table_bytes e t) = length (lpars t) * (4 + VIR_UUID_BUFLEN)"
  unfolding table_bytes_def uuids_ok_def by (rule length_entries_bytes)

lemma lpar_eta: "\<lparr>lpar_uuid = lpar_uuid l, lpar_id = lpar_id l\<rparr> = (l :: lpar)"
  by (cases l) simp

lemma fd_read_ok:
  "0 \<le> r_rc (reply e P_read (calls s P_read)) \<Longrightarrow>
   fd_read e rest n s = ((int (length (take n rest)), take n rest, drop n rest), snd (call e P_read s))"
  by (simp add: fd_read_def call_def Let_def not_less[symmetric])

lemma ReadFile_loop_ok:
  assumes rd: "\<forall>n. 0 \<le> r_rc (reply e P_read n)" and al: "\<forall>n. 0 \<le> r_rc (reply e P_alloc n)"
    and xs: "None \<notin> set xs" "list_all (\<lambda>x. length (lpar_uuid (the x)) = VIR_UUID_BUFLEN) xs"
  shows "length xs = nlpars t \<Longrightarrow> length (lpars t) = nlpars t \<Longrightarrow> i \<le> nlpars t \<Longrightarrow>
         \<exists>t' s'. ReadFile_loop e (concat (map (entry_bytes e) (drop i xs))) i t s = (0, t', s')
            \<and> nlpars t' = nlpars t \<and> lpars t' = take i (lpars t) @ drop i xs"
proof (induction "nlpars t - i" arbitrary: i s t)
  case 0
  then show ?case by (subst ReadFile_loop.simps) simp
next
  case (Suc k)
  from Suc(2) have lt: "i < nlpars t" by simp
  then have li: "i < length xs" using Suc(3) by simp
  define l where "l = the (xs ! i)"
  have xl: "xs ! i = Some l" using li xs(1) unfolding l_def by (metis nth_mem option.collapse)
  have ul: "length (lpar_uuid l) = VIR_UUID_BUFLEN"
    using xs(2) li unfolding l_def by (simp add: list_all_length)
  define rest' where "rest' = concat (map (entry_bytes e) (drop (Suc i) xs))"
  have dr: "drop i xs = Some l # drop (Suc i) xs"
    using li xl by (simp add: Cons_nth_drop_Suc[symmetric])
  have rest: "concat (map (entry_bytes e) (drop i xs)) = int_bytes e (lpar_id l) @ lpar_uuid l @ rest'"
    unfolding dr rest'_def by (simp add: entry_bytes_def)
  let ?s1 = "snd (call e P_read s)"
  let ?s2 = "snd (call e P_alloc ?s1)"
  let ?s3 = "snd (call e P_read ?s2)"
  let ?t1 = "t\<lparr>lpars := (lpars t)[i := Some l]\<rparr>"
  have r1: "fd_read e (int_bytes e (lpar_id l) @ lpar_uuid l @ rest') 4 s
              = ((4, int_bytes e (lpar_id l), lpar_uuid l @ rest'), ?s1)"
    using rd by (simp add: fd_read_ok length_int_bytes)
  have r2: "fd_read e (lpar_uuid l @ rest') VIR_UUID_BUFLEN ?s2
              = ((int VIR_UUID_BUFLEN, lpar_uuid l, rest'), ?s3)"
    using rd ul by (simp add: fd_read_ok)
  have a2: "\<not> r_rc (fst (call e P_alloc ?s1)) < 0"
    using al by (simp add: call_reply not_less)
  have k: "k = nlpars ?t1 - Suc i" using Suc(2) by simp
  obtain t' s' where ih: "ReadFile_loop e rest' (Suc i) ?t1 ?s3 = (0, t', s')"
    "nlpars t' = nlpars ?t1" "lpars t' = take (Suc i) (lpars ?t1) @ drop (Suc i) xs"
    using Suc(1)[OF k, of ?s3] Suc(3,4) lt unfolding rest'_def by auto
  have step: "ReadFile_loop e (concat (map (entry_bytes e) (drop i xs))) i t s
                = ReadFile_loop e rest' (Suc i) ?t1 ?s3"
    unfolding rest
    using lt a2 ul
    by (subst ReadFile_loop.simps)
       (simp add: r1 r2 split_beta Let_def bytes_int_int_bytes zero_lpar_def lpar_eta)
  have "lpars t' = take i (lpars t) @ drop i xs"
    unfolding ih(3) dr using lt Suc(4) by (simp add: take_Suc_conv_app_nth)
  with ih(1,2) step show ?case by simp
qed

lemma ReadFile_ok:
  assumes "file_calls_succeed e" and "table_ok t" and "uuids_ok t" and "nlpars t0 = nlpars t"
    and "local_file s = Some (table_bytes e t)"
  shows "\<exists>s'. phypUUIDTable_ReadFile e t0 s = (0, t, s')"
proof -
  from assms(1) have rd: "\<forall>n. 0 \<le> r_rc (reply e P_read n)" and al: "\<forall>n. 0 \<le> r_rc (reply e P_alloc n)"
    and op: "\<forall>n. 0 \<le> r_rc (reply e P_open n)"
    by (simp_all add: file_calls_succeed_def)
  from assms(2) have n: "length (lpars t) = nlpars t" and nn: "None \<notin> set (lpars t)"
    by (simp_all add: table_ok_def)
  let ?s2 = "snd (call e P_alloc (snd (call e P_open s)))"
  let ?t1 = "t0\<lparr>lpars := replicate (nlpars t0) None\<rparr>"
  obtain t' s' where r: "ReadFile_loop e (concat (map (entry_bytes e) (drop 0 (lpars t)))) 0 ?t1 ?s2 = (0, t', s')"
    and t': "nlpars t' = nlpars ?t1" "lpars t' = take 0 (lpars ?t1) @ drop 0 (lpars t)"
    using ReadFile_loop_ok[OF rd al nn assms(3)[unfolded uuids_ok_def], of ?t1 0 ?s2] n assms(4)
    by auto
  have "t' = t" using t' assms(4) by simp
  with r have r': "ReadFile_loop e (table_bytes e t) 0 ?t1 ?s2 = (0, t, s')"
    by (simp add: table_bytes_def)
  have lf: "local_file ?s2 = Some (table_bytes e t)" using assms(5) by (simp add: call_def)
  have lf1: "local_file (snd (call e P_open s)) = Some (table_bytes e t)" using assms(5) by (simp add: call_def)
  show ?thesis
    using op al r' lf lf1
    by (simp add: phypUUIDTable_ReadFile_def split_beta call_reply Let_def not_less[symmetric])
qed

text \<open>
  Claim C3. When every call on the local file and every allocation succeeds, for every
  table whose slots all hold entries with 16 bytes of identifier:
  \<^verbatim>\<open>phypUUIDTable_WriteFile\<close> returns 0 and leaves a file that holds, per entry and in
  order, the four bytes of the id and the 16 bytes of the uuid and nothing else, so
  \<open>N * (4 + 16)\<close> bytes; and \<^verbatim>\<open>phypUUIDTable_ReadFile\<close> with the same count \<open>N\<close> returns 0
  with the same sequence of entries.
\<close>

theorem write_then_read_roundtrip:
  assumes "file_calls_succeed e" and "table_ok t" and "uuids_ok t" and "nlpars t0 = nlpars t"
  shows "\<exists>s1 s2. phypUUIDTable_WriteFile e t s = (Ret 0, s1)
           \<and> local_file s1 = Some (table_bytes e t)
           \<and> length (table_bytes e t) = nlpars t * (4 + VIR_UUID_BUFLEN)
           \<and> phypUUIDTable_ReadFile e t0 s1 = (0, t, s2)"
proof -
  obtain s1 where w: "phypUUIDTable_WriteFile e t s = (Ret 0, s1)"
    and f: "local_file s1 = Some (table_bytes e t)"
    using WriteFile_ok[OF assms(2,3,1)] by blast
  obtain s2 where r: "phypUUIDTable_ReadFile e t0 s1 = (0, t, s2)"
    using ReadFile_ok[OF assms(1,2,3,4) f] by blast
  have "length (table_bytes e t) = nlpars t * (4 + VIR_UUID_BUFLEN)"
    using length_table_bytes[OF assms(3)] assms(2) by (simp add: table_ok_def)
  with w f r show ?thesis by blast
qed

theorem write_then_read_roundtrip_witness:
  "file_calls_succeed env_ok \<and> table_ok table2 \<and> uuids_ok table2 \<and> nlpars table0 = 0
   \<and> (\<exists>s1 s2. phypUUIDTable_WriteFile env_ok table2 sys0 = (Ret 0, s1)
           \<and> local_file s1 = Some (table_bytes env_ok table2)
           \<and> length (table_bytes env_ok table2) = 40
           \<and> phypUUIDTable_ReadFile env_ok (table0\<lparr>nlpars := 2\<rparr>) s1 = (0, table2, s2))"
proof -
  have a: "file_calls_succeed env_ok"
    by (simp add: file_calls_succeed_def env_ok_def reply_ok_def)
  have b: "table_ok table2" by (simp add: table_ok_def table2_def)
  have c: "uuids_ok table2" by (simp add: uuids_ok_def table2_def uuid_a_def uuid_b_def VIR_UUID_BUFLEN_def)
  have d: "nlpars (table0\<lparr>nlpars := 2\<rparr>) = nlpars table2" by (simp add: table2_def)
  from write_then_read_roundtrip[OF a b c d, of sys0] a b c
  show ?thesis by (simp add: table2_def VIR_UUID_BUFLEN_def table0_def)
qed

text \<open>
  Claim C9, a defect of the code. The claim wants every byte of the local file sent once
  and in order. The inner loop of \<^verbatim>\<open>phypUUIDTable_Push\<close> advances \<^verbatim>\<open>ptr\<close> and shrinks
  \<^verbatim>\<open>nread\<close> by the running total \<^verbatim>\<open>sent\<close>, not by the count of the last write, and its
  \<^verbatim>\<open>continue\<close> leaves the loop on "would block": of the file \<open>abc\<close> a channel that takes
  one byte per call receives \<open>ab\<close>, a channel that says "would block" receives nothing,
  and both pushes return 0. A channel that takes all it is offered receives the file.
\<close>

theorem Push_loses_bytes:
  "push_file (env_ok\<lparr>reply := reply_write 1\<rparr>) [97, 98, 99] = Some (Ret 0, [97, 98])
   \<and> push_file (env_ok\<lparr>reply := reply_write LIBSSH2_ERROR_EAGAIN\<rparr>) [97, 98, 99] = Some (Ret 0, [])
   \<and> push_file env_ok [97, 98, 99] = Some (Ret 0, [97, 98, 99])"
  by (simp add: push_file_def reply_write_def eval_defs)

lemma accepted_count_nonzero:
  assumes "0 < rc" and "rc \<le> int (unat (nread :: size_t))"
  shows "(word_of_int rc :: size_t) \<noteq> 0"
proof -
  have "int (unat nread) < 2 ^ 64" using uint_lt2p[of nread] by simp
  then have "rc < 2 ^ 64" using assms(2) by linarith
  then have "\<not> (2 ^ 64 :: int) dvd rc" using assms(1) by (simp add: zdvd_not_zless)
  then show ?thesis by (simp add: word_of_int_eq_0_iff)
qed

lemma Push_write_returns: "\<exists>y. Push_write e buffer ptr nread sent s = Some y"
proof (induction "2 * (length buffer - ptr) + (if sent = 0 then 0 else 1 :: nat)"
         arbitrary: ptr nread sent s rule: less_induct)
  case less
  define r where "r = fst (call e P_channel_write s)"
  define s1 where "s1 = snd (call e P_channel_write s)"
  define rc where "rc = (if r_rc r > 0 then min (r_rc r) (int (unat nread)) else r_rc r)"
  define sent' where "sent' = sent + word_of_int rc"
  define s2 where "s2 = s1\<lparr>scp_sent := scp_sent s1 @ take (nat rc) (drop ptr buffer)\<rparr>"
  have unfold: "Push_write e buffer ptr nread sent s =
      (if rc = LIBSSH2_ERROR_EAGAIN then Some (Ret (), s1)
       else if rc > 0 then
           (if ptr + nat rc > length buffer then Some (Fault, s1)
            else if sent' < nread - sent'
                 then Push_write e buffer (ptr + unat sent') (nread - sent') sent' s2
                 else Some (Ret (), s2))
       else Some (Ret (), s1))"
    by (subst Push_write.simps) (simp add: r_def s1_def rc_def sent'_def s2_def split_beta Let_def)
  show ?case
  proof (cases "rc \<noteq> LIBSSH2_ERROR_EAGAIN \<and> rc > 0 \<and> \<not> ptr + nat rc > length buffer \<and> sent' < nread - sent'")
    case False
    then show ?thesis unfolding unfold by auto
  next
    case True
    then have pos: "0 < rc" and fit: "ptr + nat rc \<le> length buffer" by simp_all
    have le: "rc \<le> int (unat nread)" using pos unfolding rc_def by (auto split: if_splits)
    have "2 * (length buffer - (ptr + unat sent')) + (if sent' = 0 then 0 else 1 :: nat)
            < 2 * (length buffer - ptr) + (if sent = 0 then 0 else 1)"
    proof (cases "sent' = 0")
      case True
      have "sent \<noteq> 0"
      proof
        assume "sent = 0"
        then have "sent' = word_of_int rc" by (simp add: sent'_def)
        with accepted_count_nonzero[OF pos le] True show False by simp
      qed
      with True show ?thesis by simp
    next
      case False
      then have "0 < unat sent'" by (simp add: unat_gt_0)
      moreover have "ptr < length buffer" using pos fit by linarith
      ultimately show ?thesis using False by auto
    qed
    from less[OF this] True show ?thesis unfolding unfold by simp
  qed
qed

lemma Push_blocks_returns: "\<exists>y. Push_blocks e rest buffer s = Some y"
proof (induction "length rest" arbitrary: rest buffer s rule: less_induct)
  case less
  define fr where "fr = fst (call e P_fread s)"
  define s1 where "s1 = snd (call e P_fread s)"
  define chunk where "chunk = (if r_rc fr < 0 then [] else take (length buffer) rest)"
  show ?case
  proof (cases "chunk = []")
    case True
    then show ?thesis
      by (subst Push_blocks.simps) (simp add: fr_def s1_def chunk_def split_beta Let_def)
  next
    case False
    then have sh: "length (drop (length chunk) rest) < length rest"
      by (auto simp: chunk_def split: if_splits)
    obtain y where w: "Push_write e (chunk @ drop (length chunk) buffer) 0 (of_nat (length chunk)) 0 s1 = Some y"
      using Push_write_returns by blast
    obtain res s2 where y: "y = (res, s2)" by (cases y)
    show ?thesis
    proof (cases res)
      case Fault
      with False w y show ?thesis
        by (subst Push_blocks.simps) (simp add: fr_def s1_def chunk_def split_beta Let_def)
    next
      case (Ret u)
      from less[OF sh, of "chunk @ drop (length chunk) buffer" s2] Ret False w y show ?thesis
        by (subst Push_blocks.simps) (simp add: fr_def s1_def chunk_def split_beta Let_def)
    qed
  qed
qed

lemma Push_open_returns:
  assumes "\<forall>n. r_rc (reply e P_scp_send (N + n)) \<noteq> LIBSSH2_ERROR_EAGAIN"
  shows "\<exists>y. Push_open e s = Some y"
proof (induction "N - calls s P_scp_send" arbitrary: s)
  case 0
  then have "\<exists>n. calls s P_scp_send = N + n" by (metis diff_is_0_eq le_Suc_ex)
  with assms have "r_rc (reply e P_scp_send (calls s P_scp_send)) \<noteq> LIBSSH2_ERROR_EAGAIN" by auto
  then show ?case by (subst Push_open.simps) (auto simp: call_def)
next
  case (Suc k)
  let ?s1 = "snd (call e P_scp_send s)"
  have "k = N - calls ?s1 P_scp_send" using Suc(2) by (simp add: call_calls)
  from Suc(1)[OF this] show ?case
    by (subst Push_open.simps) (auto simp: split_beta Let_def)
qed

lemma Push_returns: "scp_send_settles e \<Longrightarrow> \<exists>y. phypUUIDTable_Push e s = Some y"
  unfolding scp_send_settles_def phypUUIDTable_Push_def
  using Push_open_returns[of e] Push_blocks_returns[of e]
  by (auto simp: split_beta Let_def split: option.splits) (metis option.distinct(1))+

lemma persist_returns: "scp_send_settles e \<Longrightarrow> \<exists>y. persist e t s = Some y"
proof -
  assume st: "scp_send_settles e"
  obtain r s1 where w: "phypUUIDTable_WriteFile e t s = (r, s1)" by (cases "phypUUIDTable_WriteFile e t s")
  obtain y where p: "phypUUIDTable_Push e s1 = Some y" using Push_returns[OF st] by blast
  obtain r' s2 where y: "y = (r', s2)" by (cases y)
  show ?thesis
    using w p y by (cases r; cases r') (simp_all add: persist_def)
qed

lemma AddLpar_returns:
  "scp_send_settles e \<Longrightarrow> \<exists>r t' s'. phypUUIDTable_AddLpar e uuid ident t s = Some (r, t', s')"
  using persist_returns[of e]
  by (simp add: phypUUIDTable_AddLpar_def split_beta Let_def)

lemma RemLpar_always_returns:
  assumes "scp_send_settles e"
  shows "\<exists>r t' s'. phypUUIDTable_RemLpar e ident t s = Some (r, t', s')"
proof -
  obtain r t' where sc: "RemLpar_scan ident 0 t = (r, t')" by (cases "RemLpar_scan ident 0 t")
  show ?thesis
  proof (cases r)
    case Fault
    with sc show ?thesis by (simp add: phypUUIDTable_RemLpar_def)
  next
    case (Ret u)
    obtain y where p: "persist e t' s = Some y" using persist_returns[OF assms] by blast
    obtain r' s' where y: "y = (r', s')" by (cases y)
    from sc Ret p y show ?thesis by (simp add: phypUUIDTable_RemLpar_def)
  qed
qed


text \<open>
  Claim C7. \<^verbatim>\<open>nlpars\<close> never decreases: whenever \<^verbatim>\<open>phypUUIDTable_AddLpar\<close> returns, with
  whatever code, \<^verbatim>\<open>nlpars\<close> is one more than before; whenever \<^verbatim>\<open>phypUUIDTable_RemLpar\<close>
  returns, \<^verbatim>\<open>nlpars\<close> and the number of slots are what they were. Both return as soon as
  the outbound copy channel stops saying "would block".
\<close>

theorem nlpars_never_decreases:
  "(phypUUIDTable_AddLpar e uuid ident t s = Some (r, t', s') \<longrightarrow> nlpars t' = nlpars t + 1)
   \<and> (phypUUIDTable_RemLpar e ident t s = Some (r2, t2, s2) \<longrightarrow>
        nlpars t2 = nlpars t \<and> length (lpars t2) = length (lpars t))
   \<and> (scp_send_settles e \<longrightarrow>
        (\<exists>r t' s'. phypUUIDTable_AddLpar e uuid ident t s = Some (r, t', s'))
        \<and> (\<exists>r t' s'. phypUUIDTable_RemLpar e ident t s = Some (r, t', s')))"
proof (intro conjI impI)
  assume "phypUUIDTable_AddLpar e uuid ident t s = Some (r, t', s')"
  then show "nlpars t' = nlpars t + 1" by (rule AddLpar_nlpars)
next
  assume h: "phypUUIDTable_RemLpar e ident t s = Some (r2, t2, s2)"
  from RemLpar_nlpars[OF h] show "nlpars t2 = nlpars t" by simp
  from RemLpar_nlpars[OF h] show "length (lpars t2) = length (lpars t)" by simp
next
  assume "scp_send_settles e"
  then show "\<exists>r t' s'. phypUUIDTable_AddLpar e uuid ident t s = Some (r, t', s')"
    by (rule AddLpar_returns)
next
  assume "scp_send_settles e"
  then show "\<exists>r t' s'. phypUUIDTable_RemLpar e ident t s = Some (r, t', s')"
    by (rule RemLpar_always_returns)
qed

lemma env_ok_settles: "scp_send_settles env_ok"
  unfolding scp_send_settles_def
  by (rule exI[of _ 0]) (simp add: env_ok_def reply_ok_def LIBSSH2_ERROR_EAGAIN_def)

theorem nlpars_never_decreases_witness:
  "scp_send_settles env_ok
   \<and> (\<exists>r t' s'. phypUUIDTable_AddLpar env_ok uuid_a 9 table2 sys0 = Some (r, t', s') \<and> nlpars t' = 3)
   \<and> (\<exists>r t' s'. phypUUIDTable_RemLpar env_ok 3 table2 sys0 = Some (r, t', s') \<and> nlpars t' = 2
       \<and> length (lpars t') = 2)"
proof -
  from nlpars_never_decreases[of env_ok uuid_a 9 table2 sys0] env_ok_settles
  obtain r1 t1 s1 where a: "phypUUIDTable_AddLpar env_ok uuid_a 9 table2 sys0 = Some (r1, t1, s1)"
    by blast
  from nlpars_never_decreases[of env_ok uuid_a 3 table2 sys0] env_ok_settles
  obtain r2 t2 s2 where b: "phypUUIDTable_RemLpar env_ok 3 table2 sys0 = Some (r2, t2, s2)"
    by blast
  from nlpars_never_decreases[of env_ok uuid_a 9 table2 sys0 r1 t1 s1] a
  have "nlpars t1 = 3" by (simp add: table2_def)
  moreover from nlpars_never_decreases[of env_ok uuid_a 3 table2 sys0 _ _ _ r2 t2 s2] b
  have "nlpars t2 = 2 \<and> length (lpars t2) = 2" by (simp add: table2_def)
  ultimately show ?thesis using a b env_ok_settles by blast
qed

lemma virBufferAdd_calls:
  "p \<noteq> P_alloc \<Longrightarrow> calls (snd (virBufferAdd_strlen e buf arr s)) p = calls s p"
  by (simp add: virBufferAdd_strlen_def call_def Let_def split_beta)

lemma virBufferAdd_events:
  "poll_events (snd (virBufferAdd_strlen e buf arr s)) = poll_events s"
  by (simp add: virBufferAdd_strlen_def call_def Let_def split_beta)

lemma exec_keeps_open_count:
  assumes "phypExec_exec e s = Some y"
  shows "calls (snd y) P_channel_open_session = calls s P_channel_open_session"
proof (rule phypExec_exec.raw_induct[where
        P = "\<lambda>e s y. calls (snd y) P_channel_open_session = calls s P_channel_open_session", OF _ assms])
  fix f e s y
  assume ih: "\<And>e s y. f e s = Some y \<Longrightarrow>
                 calls (snd y) P_channel_open_session = calls s P_channel_open_session"
    and step: "(let (r, s1) = call e P_channel_exec s in
      if r_rc r = LIBSSH2_ERROR_EAGAIN then
        (let (w, s2) = waitsocket e s1 in
         if wait_failed w then Some (WaitFailed, s2) else f e s2)
      else Some (Done (r_rc r), s1)) = Some y"
  from step show "calls (snd y) P_channel_open_session = calls s P_channel_open_session"
    by (auto simp: Let_def split_beta waitsocket_calls call_calls split: if_splits dest!: ih)
qed

lemma close_keeps_open_count:
  assumes "phypExec_close e s = Some y"
  shows "calls (snd y) P_channel_open_session = calls s P_channel_open_session"
proof (rule phypExec_close.raw_induct[where
        P = "\<lambda>e s y. calls (snd y) P_channel_open_session = calls s P_channel_open_session", OF _ assms])
  fix f e s y
  assume ih: "\<And>e s y. f e s = Some y \<Longrightarrow>
                 calls (snd y) P_channel_open_session = calls s P_channel_open_session"
    and step: "(let (r, s1) = call e P_channel_close s in
      if r_rc r = LIBSSH2_ERROR_EAGAIN then
        (let (w, s2) = waitsocket e s1 in
         if wait_failed w then Some (WaitFailed, s2) else f e s2)
      else Some (Done (r_rc r), s1)) = Some y"
  from step show "calls (snd y) P_channel_open_session = calls s P_channel_open_session"
    by (auto simp: Let_def split_beta waitsocket_calls call_calls split: if_splits dest!: ih)
qed

lemma read_keeps_open_count:
  assumes "phypExec_read e buffer tex_ret s = Some y"
  shows "calls (snd y) P_channel_open_session = calls s P_channel_open_session"
proof (rule phypExec_read.raw_induct[where
        P = "\<lambda>e buffer tex_ret s y. calls (snd y) P_channel_open_session = calls s P_channel_open_session",
        OF _ assms])
  fix f e buffer tex_ret s y
  assume ih: "\<And>e buffer tex_ret s y. f e buffer tex_ret s = Some y \<Longrightarrow>
                 calls (snd y) P_channel_open_session = calls s P_channel_open_session"
    and step: "(let (r, s1) = call e P_channel_read s;
          got = take (length buffer) (r_data r);
          rc = (if r_rc r < 0 then r_rc r else int (length got))
      in if rc > 0 then
           (let buffer' = got @ drop (length got) buffer in
            case virBufferAdd_strlen e tex_ret buffer' s1 of
              (Fault, s2) \<Rightarrow> Some (Done Fault, s2)
            | (Ret tex_ret', s2) \<Rightarrow> f e buffer' tex_ret' s2)
         else if rc = LIBSSH2_ERROR_EAGAIN then
           (let (w, s2) = waitsocket e s1 in
            if wait_failed w then Some (WaitFailed, s2) else f e buffer tex_ret s2)
         else Some (Done (Ret tex_ret), s1)) = Some y"
  let ?s1 = "snd (call e P_channel_read s)"
  let ?r = "fst (call e P_channel_read s)"
  let ?got = "take (length buffer) (r_data ?r)"
  let ?rc = "if r_rc ?r < 0 then r_rc ?r else int (length ?got)"
  let ?b = "?got @ drop (length ?got) buffer"
  have c1: "calls ?s1 P_channel_open_session = calls s P_channel_open_session"
    by (simp add: call_calls)
  show "calls (snd y) P_channel_open_session = calls s P_channel_open_session"
  proof (cases "?rc > 0")
    case True
    obtain a s2 where v: "virBufferAdd_strlen e tex_ret ?b ?s1 = (a, s2)" by force
    have c2: "calls s2 P_channel_open_session = calls ?s1 P_channel_open_session"
      using virBufferAdd_calls[of P_channel_open_session e tex_ret ?b ?s1] v by simp
    show ?thesis
    proof (cases a)
      case Fault
      with step True v have "y = (Done Fault, s2)"
        by (simp add: Let_def split_beta)
      then show ?thesis using c1 c2 by simp
    next
      case (Ret t')
      with step True v have "f e ?b t' s2 = Some y"
        by (simp add: Let_def split_beta)
      from ih[OF this] show ?thesis using c1 c2 by simp
    qed
  next
    case False
    show ?thesis
    proof (cases "?rc = LIBSSH2_ERROR_EAGAIN")
      case True
      let ?s2 = "snd (waitsocket e ?s1)"
      have c2: "calls ?s2 P_channel_open_session = calls s P_channel_open_session"
        by (simp add: waitsocket_calls call_calls)
      show ?thesis
      proof (cases "wait_failed (fst (waitsocket e ?s1))")
        case True
        with step False \<open>?rc = LIBSSH2_ERROR_EAGAIN\<close> have "y = (WaitFailed, ?s2)"
          by (simp add: Let_def split_beta)
        then show ?thesis using c2 by simp
      next
        case nf: False
        with step False \<open>?rc = LIBSSH2_ERROR_EAGAIN\<close> have "f e buffer tex_ret ?s2 = Some y"
          by (simp add: Let_def split_beta)
        from ih[OF this] show ?thesis using c2 by simp
      qed
    next
      case ne: False
      with step False have "y = (Done (Ret tex_ret), ?s1)"
        by (simp add: Let_def split_beta)
      then show ?thesis using c1 by simp
    qed
  qed
qed

lemma finish_keeps_open_count:
  assumes "phypExec_finish e tex_ret s = Some (r, s')"
  shows "calls s' P_channel_open_session = calls s P_channel_open_session"
proof -
  obtain y where y: "phypExec_close e s = Some y"
    using assms by (auto simp: phypExec_finish_def split: option.splits)
  from close_keeps_open_count[OF y]
  have c: "calls (snd y) P_channel_open_session = calls s P_channel_open_session" .
  obtain st s1 where yy: "y = (st, s1)" by force
  show ?thesis
    using assms y c unfolding yy
    by (auto simp: phypExec_finish_def phypExec_err_def call_def Let_def split_beta
        split: step.splits if_splits)
qed

lemma drain_keeps_open_count:
  assumes "phypExec_drain e s = Some (r, s')"
  shows "calls s' P_channel_open_session = calls s P_channel_open_session"
proof -
  obtain y where y: "phypExec_read e (replicate buffer_size 0) VIR_BUFFER_INITIALIZER s = Some y"
    using assms by (auto simp: phypExec_drain_def split: option.splits)
  from read_keeps_open_count[OF y]
  have c: "calls (snd y) P_channel_open_session = calls s P_channel_open_session" .
  obtain st s1 where yy: "y = (st, s1)" by force
  show ?thesis
    using assms y c unfolding yy
    by (auto simp: phypExec_drain_def phypExec_err_def
        split: step.splits result.splits dest: finish_keeps_open_count)
qed

lemma run_keeps_open_count:
  assumes "phypExec_run e cmd s = Some (r, s')"
  shows "calls s' P_channel_open_session = calls s P_channel_open_session"
proof (cases "cmd = None")
  case True
  with assms show ?thesis by (simp add: phypExec_run_def)
next
  case False
  then obtain y where y: "phypExec_exec e s = Some y"
    using assms by (auto simp: phypExec_run_def split: option.splits)
  from exec_keeps_open_count[OF y]
  have c: "calls (snd y) P_channel_open_session = calls s P_channel_open_session" .
  obtain st s1 where yy: "y = (st, s1)" by force
  show ?thesis
    using assms y c False unfolding yy
    by (auto simp: phypExec_run_def phypExec_err_def
        split: step.splits if_splits dest: drain_keeps_open_count)
qed

lemma phypExec_read_unfold:
  "phypExec_read e buffer tex_ret s =
     (if 0 < (if r_rc (reply e P_channel_read (calls s P_channel_read)) < 0
              then r_rc (reply e P_channel_read (calls s P_channel_read))
              else int (length (take (length buffer) (r_data (reply e P_channel_read (calls s P_channel_read))))))
      then (case virBufferAdd_strlen e tex_ret
                  (take (length buffer) (r_data (reply e P_channel_read (calls s P_channel_read)))
                   @ drop (length (take (length buffer) (r_data (reply e P_channel_read (calls s P_channel_read))))) buffer)
                  (snd (call e P_channel_read s)) of
              (Fault, s2) \<Rightarrow> Some (Done Fault, s2)
            | (Ret tex_ret', s2) \<Rightarrow>
                phypExec_read e
                  (take (length buffer) (r_data (reply e P_channel_read (calls s P_channel_read)))
                   @ drop (length (take (length buffer) (r_data (reply e P_channel_read (calls s P_channel_read))))) buffer)
                  tex_ret' s2)
      else if (if r_rc (reply e P_channel_read (calls s P_channel_read)) < 0
               then r_rc (reply e P_channel_read (calls s P_channel_read))
               else int (length (take (length buffer) (r_data (reply e P_channel_read (calls s P_channel_read))))))
              = LIBSSH2_ERROR_EAGAIN
      then (if wait_failed (fst (waitsocket e (snd (call e P_channel_read s))))
            then Some (WaitFailed, snd (waitsocket e (snd (call e P_channel_read s))))
            else phypExec_read e buffer tex_ret (snd (waitsocket e (snd (call e P_channel_read s)))))
      else Some (Done (Ret tex_ret), snd (call e P_channel_read s)))"
  by (subst phypExec_read.simps) (simp only: Let_def split_beta call_reply)

lemma read_returns_without_wait:
  assumes nb: "\<forall>n. r_rc (reply e P_channel_read n) \<noteq> LIBSSH2_ERROR_EAGAIN"
    and ends: "r_rc (reply e P_channel_read (calls s P_channel_read + m)) < 0
             \<or> r_data (reply e P_channel_read (calls s P_channel_read + m)) = []"
  shows "\<exists>r s'. phypExec_read e buffer tex_ret s = Some (Done r, s')
            \<and> calls s' P_poll = calls s P_poll
            \<and> calls s' P_session_block_directions = calls s P_session_block_directions
            \<and> poll_events s' = poll_events s"
  using ends
proof (induction m arbitrary: s buffer tex_ret)
  case 0
  let ?r = "reply e P_channel_read (calls s P_channel_read)"
  let ?rc = "if r_rc ?r < 0 then r_rc ?r else int (length (take (length buffer) (r_data ?r)))"
  have ne: "?rc \<noteq> LIBSSH2_ERROR_EAGAIN"
    using nb by (simp add: LIBSSH2_ERROR_EAGAIN_def)
  have le: "\<not> 0 < ?rc" using 0 by auto
  have "phypExec_read e buffer tex_ret s = Some (Done (Ret tex_ret), snd (call e P_channel_read s))"
    by (subst phypExec_read_unfold) (simp only: le ne if_False)
  then show ?case by (simp add: call_calls call_events)
next
  case (Suc m)
  let ?r = "reply e P_channel_read (calls s P_channel_read)"
  let ?s1 = "snd (call e P_channel_read s)"
  let ?got = "take (length buffer) (r_data ?r)"
  let ?rc = "if r_rc ?r < 0 then r_rc ?r else int (length ?got)"
  let ?b = "?got @ drop (length ?got) buffer"
  have ne: "?rc \<noteq> LIBSSH2_ERROR_EAGAIN"
    using nb by (simp add: LIBSSH2_ERROR_EAGAIN_def)
  show ?case
  proof (cases "0 < ?rc")
    case False
    have "phypExec_read e buffer tex_ret s = Some (Done (Ret tex_ret), ?s1)"
      by (subst phypExec_read_unfold) (simp only: False ne if_False)
    then show ?thesis by (simp add: call_calls call_events)
  next
    case True
    obtain a s2 where v: "virBufferAdd_strlen e tex_ret ?b ?s1 = (a, s2)" by force
    have s2: "s2 = snd (virBufferAdd_strlen e tex_ret ?b ?s1)" unfolding v by simp
    have k: "calls s2 P_poll = calls s P_poll"
      "calls s2 P_session_block_directions = calls s P_session_block_directions"
      "poll_events s2 = poll_events s"
      "calls s2 P_channel_read = Suc (calls s P_channel_read)"
      unfolding s2 by (simp_all add: virBufferAdd_calls virBufferAdd_events call_calls call_events)
    show ?thesis
    proof (cases a)
      case Fault
      have "phypExec_read e buffer tex_ret s = Some (Done Fault, s2)"
        by (subst phypExec_read_unfold)
           (simp only: True if_True v[unfolded Fault] prod.case result.case)
      then show ?thesis using k by simp
    next
      case (Ret t')
      have st: "phypExec_read e buffer tex_ret s = phypExec_read e ?b t' s2"
        by (subst phypExec_read_unfold)
           (simp only: True if_True v[unfolded Ret] prod.case result.case)
      have "r_rc (reply e P_channel_read (calls s2 P_channel_read + m)) < 0
          \<or> r_data (reply e P_channel_read (calls s2 P_channel_read + m)) = []"
        using Suc.prems k(4) by simp
      from Suc.IH[OF this, of ?b t'] show ?thesis unfolding st using k by auto
    qed
  qed
qed

lemma exec_returns_without_wait:
  assumes "\<forall>n. r_rc (reply e P_channel_exec n) \<noteq> LIBSSH2_ERROR_EAGAIN"
  shows "phypExec_exec e s = Some (Done (r_rc (reply e P_channel_exec (calls s P_channel_exec))),
                                   snd (call e P_channel_exec s))"
  using assms by (subst phypExec_exec.simps) (simp add: Let_def split_beta call_reply)

lemma close_returns_without_wait:
  assumes "\<forall>n. r_rc (reply e P_channel_close n) \<noteq> LIBSSH2_ERROR_EAGAIN"
  shows "phypExec_close e s = Some (Done (r_rc (reply e P_channel_close (calls s P_channel_close))),
                                    snd (call e P_channel_close s))"
  using assms by (subst phypExec_close.simps) (simp add: Let_def split_beta call_reply)

lemma finish_returns_without_wait:
  assumes "\<forall>n. r_rc (reply e P_channel_close n) \<noteq> LIBSSH2_ERROR_EAGAIN"
  shows "\<exists>r s'. phypExec_finish e tex_ret s = Some (r, s')
            \<and> calls s' P_poll = calls s P_poll
            \<and> calls s' P_session_block_directions = calls s P_session_block_directions
            \<and> poll_events s' = poll_events s"
  unfolding phypExec_finish_def close_returns_without_wait[OF assms]
  by (simp add: call_def Let_def split_beta)

lemma drain_returns_without_wait:
  assumes "\<forall>n. r_rc (reply e P_channel_read n) \<noteq> LIBSSH2_ERROR_EAGAIN"
    and "\<forall>n. r_rc (reply e P_channel_close n) \<noteq> LIBSSH2_ERROR_EAGAIN"
    and "r_rc (reply e P_channel_read (calls s P_channel_read + m)) < 0
       \<or> r_data (reply e P_channel_read (calls s P_channel_read + m)) = []"
  shows "\<exists>r s'. phypExec_drain e s = Some (r, s')
            \<and> calls s' P_poll = calls s P_poll
            \<and> calls s' P_session_block_directions = calls s P_session_block_directions
            \<and> poll_events s' = poll_events s"
proof -
  obtain r s1 where rd: "phypExec_read e (replicate buffer_size 0) VIR_BUFFER_INITIALIZER s = Some (Done r, s1)"
    and k: "calls s1 P_poll = calls s P_poll"
      "calls s1 P_session_block_directions = calls s P_session_block_directions"
      "poll_events s1 = poll_events s"
    using read_returns_without_wait[OF assms(1) assms(3)] by blast
  show ?thesis
  proof (cases r)
    case Fault
    then show ?thesis using rd k by (simp add: phypExec_drain_def)
  next
    case (Ret t)
    from finish_returns_without_wait[OF assms(2), of t s1]
    show ?thesis using rd k Ret by (auto simp: phypExec_drain_def)
  qed
qed

lemma run_returns_without_wait:
  assumes "\<forall>n. r_rc (reply e P_channel_exec n) \<noteq> LIBSSH2_ERROR_EAGAIN"
    and "\<forall>n. r_rc (reply e P_channel_read n) \<noteq> LIBSSH2_ERROR_EAGAIN"
    and "\<forall>n. r_rc (reply e P_channel_close n) \<noteq> LIBSSH2_ERROR_EAGAIN"
    and "r_rc (reply e P_channel_read (calls s P_channel_read + m)) < 0
       \<or> r_data (reply e P_channel_read (calls s P_channel_read + m)) = []"
  shows "\<exists>r s'. phypExec_run e cmd s = Some (r, s')
            \<and> calls s' P_poll = calls s P_poll
            \<and> calls s' P_session_block_directions = calls s P_session_block_directions
            \<and> poll_events s' = poll_events s"
proof (cases "cmd = None")
  case True
  then show ?thesis by (simp add: phypExec_run_def)
next
  case False
  let ?s1 = "snd (call e P_channel_exec s)"
  have "r_rc (reply e P_channel_read (calls ?s1 P_channel_read + m)) < 0
      \<or> r_data (reply e P_channel_read (calls ?s1 P_channel_read + m)) = []"
    using assms(4) by (simp add: call_calls)
  from drain_returns_without_wait[OF assms(2) assms(3) this]
  show ?thesis
    using False
    unfolding phypExec_run_def exec_returns_without_wait[OF assms(1)]
    by (auto simp: phypExec_err_def call_calls call_events)
qed

lemma open_loop_would_block:
  assumes "\<forall>i<K. r_rc (reply e P_channel_open_session (calls s P_channel_open_session + i))
                  = LIBSSH2_ERROR_EAGAIN"
    and "r_rc (reply e P_channel_open_session (calls s P_channel_open_session + K)) = 0"
    and "\<forall>n. 0 \<le> r_rc (reply e P_poll n)"
  shows "\<exists>s'. phypExec_open e s = Some (Done True, s')
            \<and> calls s' P_poll = calls s P_poll + K
            \<and> calls s' P_session_block_directions = calls s P_session_block_directions + K
            \<and> length (poll_events s') = length (poll_events s) + K
            \<and> calls s' P_channel_open_session = calls s P_channel_open_session + K + 1
            \<and> calls s' P_channel_exec = calls s P_channel_exec
            \<and> calls s' P_channel_read = calls s P_channel_read"
  using assms
proof (induction K arbitrary: s)
  case 0
  then show ?case
    by (subst phypExec_open.simps) (simp add: call_def)
next
  case (Suc K)
  let ?s1 = "snd (call e P_channel_open_session s)"
  let ?s2 = "snd (waitsocket e ?s1)"
  have r0: "r_rc (reply e P_channel_open_session (calls s P_channel_open_session)) = LIBSSH2_ERROR_EAGAIN"
    using Suc.prems(1) by (metis add.right_neutral zero_less_Suc)
  have nf: "\<not> wait_failed (fst (waitsocket e ?s1))"
    using Suc.prems(3) by (simp add: wait_failed_def waitsocket_result not_less[symmetric])
  have c2: "calls ?s2 P_channel_open_session = Suc (calls s P_channel_open_session)"
    by (simp add: waitsocket_calls call_calls)
  have p1: "\<forall>i<K. r_rc (reply e P_channel_open_session (calls ?s2 P_channel_open_session + i))
                  = LIBSSH2_ERROR_EAGAIN"
    using Suc.prems(1) unfolding c2 by (metis Suc_less_eq add_Suc_shift)
  have p2: "r_rc (reply e P_channel_open_session (calls ?s2 P_channel_open_session + K)) = 0"
    using Suc.prems(2) unfolding c2 by simp
  obtain s' where ih: "phypExec_open e ?s2 = Some (Done True, s')"
    "calls s' P_poll = calls ?s2 P_poll + K"
    "calls s' P_session_block_directions = calls ?s2 P_session_block_directions + K"
    "length (poll_events s') = length (poll_events ?s2) + K"
    "calls s' P_channel_open_session = calls ?s2 P_channel_open_session + K + 1"
    "calls s' P_channel_exec = calls ?s2 P_channel_exec"
    "calls s' P_channel_read = calls ?s2 P_channel_read"
    using Suc.IH[OF p1 p2 Suc.prems(3)] by blast
  have step: "phypExec_open e s = phypExec_open e ?s2"
    using r0 nf
    by (subst phypExec_open.simps)
       (simp add: split_beta call_reply LIBSSH2_ERROR_EAGAIN_def Let_def)
  show ?case
    unfolding step using ih
    by (simp add: waitsocket_calls call_calls waitsocket_events call_events)
qed

text \<open>
  Claim C8. When the allocation of the read buffer succeeds, \<^verbatim>\<open>libssh2_channel_open_session\<close>
  says "would block" for its next \<open>K\<close> calls and gives a channel at the call after them,
  and \<^verbatim>\<open>poll\<close> never fails, \<^verbatim>\<open>phypExec\<close> goes on to request the command (line 131) from a
  state \<open>s1\<close> reached by \<open>K + 1\<close> calls of the open primitive and exactly \<open>K\<close> calls of
  \<^verbatim>\<open>waitsocket\<close>, each of which asks the session for its directions and polls once, with
  no request of the command made yet. Whatever the rest of \<^verbatim>\<open>phypExec\<close> returns, it does not
  call the open primitive again. When moreover the request, the reads and the close never
  say "would block" and some read delivers nothing, \<^verbatim>\<open>phypExec\<close> returns, and over the whole
  call \<^verbatim>\<open>waitsocket\<close> ran exactly \<open>K\<close> times: none after the channel-open step.
\<close>

theorem open_waits_once_per_would_block:
  assumes "0 \<le> r_rc (reply e P_alloc (calls s P_alloc))"
    and "\<forall>i<K. r_rc (reply e P_channel_open_session (calls s P_channel_open_session + i))
                  = LIBSSH2_ERROR_EAGAIN"
    and "r_rc (reply e P_channel_open_session (calls s P_channel_open_session + K)) = 0"
    and "\<forall>n. 0 \<le> r_rc (reply e P_poll n)"
  shows "\<exists>s1. phypExec e cmd st s = phypExec_run e cmd s1
            \<and> calls s1 P_poll = calls s P_poll + K
            \<and> calls s1 P_session_block_directions = calls s P_session_block_directions + K
            \<and> length (poll_events s1) = length (poll_events s) + K
            \<and> calls s1 P_channel_open_session = calls s P_channel_open_session + K + 1
            \<and> calls s1 P_channel_exec = calls s P_channel_exec
            \<and> (\<forall>r s'. phypExec_run e cmd s1 = Some (r, s') \<longrightarrow>
                   calls s' P_channel_open_session = calls s1 P_channel_open_session)
            \<and> ((\<forall>n. r_rc (reply e P_channel_exec n) \<noteq> LIBSSH2_ERROR_EAGAIN
                     \<and> r_rc (reply e P_channel_read n) \<noteq> LIBSSH2_ERROR_EAGAIN
                     \<and> r_rc (reply e P_channel_close n) \<noteq> LIBSSH2_ERROR_EAGAIN)
                \<and> (r_rc (reply e P_channel_read (calls s P_channel_read + m)) < 0
                     \<or> r_data (reply e P_channel_read (calls s P_channel_read + m)) = []) \<longrightarrow>
                (\<exists>r s'. phypExec e cmd st s = Some (r, s')
                    \<and> calls s' P_poll = calls s P_poll + K
                    \<and> calls s' P_session_block_directions = calls s P_session_block_directions + K
                    \<and> length (poll_events s') = length (poll_events s) + K
                    \<and> calls s' P_channel_open_session = calls s P_channel_open_session + K + 1))"
proof -
  let ?s0 = "snd (call e P_alloc s)"
  have a1: "\<forall>i<K. r_rc (reply e P_channel_open_session (calls ?s0 P_channel_open_session + i))
                  = LIBSSH2_ERROR_EAGAIN"
    using assms(2) by (simp add: call_calls)
  have a2: "r_rc (reply e P_channel_open_session (calls ?s0 P_channel_open_session + K)) = 0"
    using assms(3) by (simp add: call_calls)
  obtain s1 where op: "phypExec_open e ?s0 = Some (Done True, s1)"
    and k: "calls s1 P_poll = calls s P_poll + K"
      "calls s1 P_session_block_directions = calls s P_session_block_directions + K"
      "length (poll_events s1) = length (poll_events s) + K"
      "calls s1 P_channel_open_session = calls s P_channel_open_session + K + 1"
      "calls s1 P_channel_exec = calls s P_channel_exec"
      "calls s1 P_channel_read = calls s P_channel_read"
    using open_loop_would_block[OF a1 a2 assms(4)] by (auto simp: call_calls call_events)
  have eq: "phypExec e cmd st s = phypExec_run e cmd s1"
    using assms(1) op by (simp add: phypExec_def Let_def split_beta call_reply)
  have frame: "\<forall>r s'. phypExec_run e cmd s1 = Some (r, s') \<longrightarrow>
                 calls s' P_channel_open_session = calls s1 P_channel_open_session"
    using run_keeps_open_count by blast
  have total: "\<exists>r s'. phypExec e cmd st s = Some (r, s')
                    \<and> calls s' P_poll = calls s P_poll + K
                    \<and> calls s' P_session_block_directions = calls s P_session_block_directions + K
                    \<and> length (poll_events s') = length (poll_events s) + K
                    \<and> calls s' P_channel_open_session = calls s P_channel_open_session + K + 1"
    if nb: "\<forall>n. r_rc (reply e P_channel_exec n) \<noteq> LIBSSH2_ERROR_EAGAIN
                     \<and> r_rc (reply e P_channel_read n) \<noteq> LIBSSH2_ERROR_EAGAIN
                     \<and> r_rc (reply e P_channel_close n) \<noteq> LIBSSH2_ERROR_EAGAIN"
      and ends: "r_rc (reply e P_channel_read (calls s P_channel_read + m)) < 0
                     \<or> r_data (reply e P_channel_read (calls s P_channel_read + m)) = []"
  proof -
    have n1: "\<forall>n. r_rc (reply e P_channel_exec n) \<noteq> LIBSSH2_ERROR_EAGAIN"
      and n2: "\<forall>n. r_rc (reply e P_channel_read n) \<noteq> LIBSSH2_ERROR_EAGAIN"
      and n3: "\<forall>n. r_rc (reply e P_channel_close n) \<noteq> LIBSSH2_ERROR_EAGAIN"
      using nb by simp_all
    have e1: "r_rc (reply e P_channel_read (calls s1 P_channel_read + m)) < 0
            \<or> r_data (reply e P_channel_read (calls s1 P_channel_read + m)) = []"
      using ends k(6) by simp
    obtain r s' where rr: "phypExec_run e cmd s1 = Some (r, s')"
      and q: "calls s' P_poll = calls s1 P_poll"
        "calls s' P_session_block_directions = calls s1 P_session_block_directions"
        "poll_events s' = poll_events s1"
      using run_returns_without_wait[OF n1 n2 n3 e1] by blast
    have "calls s' P_channel_open_session = calls s1 P_channel_open_session"
      using run_keeps_open_count[OF rr] .
    then show ?thesis using rr q k eq by simp
  qed
  show ?thesis
    using eq k(1-5) frame total by blast
qed

theorem open_waits_once_per_would_block_witness:
  "0 \<le> r_rc (reply (env_ok\<lparr>reply := reply_open_later 2\<rparr>) P_alloc 0)
   \<and> r_rc (reply (env_ok\<lparr>reply := reply_open_later 2\<rparr>) P_channel_open_session 0) = LIBSSH2_ERROR_EAGAIN
   \<and> r_rc (reply (env_ok\<lparr>reply := reply_open_later 2\<rparr>) P_channel_open_session 1) = LIBSSH2_ERROR_EAGAIN
   \<and> r_rc (reply (env_ok\<lparr>reply := reply_open_later 2\<rparr>) P_channel_open_session 2) = 0
   \<and> (\<forall>n. 0 \<le> r_rc (reply (env_ok\<lparr>reply := reply_open_later 2\<rparr>) P_poll n))
   \<and> (\<forall>n. r_rc (reply (env_ok\<lparr>reply := reply_open_later 2\<rparr>) P_channel_exec n) \<noteq> LIBSSH2_ERROR_EAGAIN
          \<and> r_rc (reply (env_ok\<lparr>reply := reply_open_later 2\<rparr>) P_channel_read n) \<noteq> LIBSSH2_ERROR_EAGAIN
          \<and> r_rc (reply (env_ok\<lparr>reply := reply_open_later 2\<rparr>) P_channel_close n) \<noteq> LIBSSH2_ERROR_EAGAIN)
   \<and> r_data (reply (env_ok\<lparr>reply := reply_open_later 2\<rparr>) P_channel_read 0) = []
   \<and> (\<exists>r s'. phypExec (env_ok\<lparr>reply := reply_open_later 2\<rparr>) (Some (map of_char ''lshmc -V'')) 0 sys0
                 = Some (r, s')
          \<and> calls s' P_poll = 2 \<and> calls s' P_session_block_directions = 2
          \<and> length (poll_events s') = 2 \<and> calls s' P_channel_open_session = 3)"
proof -
  let ?e = "env_ok\<lparr>reply := reply_open_later 2\<rparr>"
  have al: "0 \<le> r_rc (reply ?e P_alloc (calls sys0 P_alloc))"
    by (simp add: reply_open_later_def reply_ok_def)
  have a: "\<forall>i<2. r_rc (reply ?e P_channel_open_session (calls sys0 P_channel_open_session + i))
              = LIBSSH2_ERROR_EAGAIN"
    by (simp add: reply_open_later_def sys0_def)
  have b: "r_rc (reply ?e P_channel_open_session (calls sys0 P_channel_open_session + 2)) = 0"
    by (simp add: reply_open_later_def sys0_def reply_ok_def)
  have c: "\<forall>n. 0 \<le> r_rc (reply ?e P_poll n)"
    by (simp add: reply_open_later_def reply_ok_def)
  have d: "\<forall>n. r_rc (reply ?e P_channel_exec n) \<noteq> LIBSSH2_ERROR_EAGAIN
          \<and> r_rc (reply ?e P_channel_read n) \<noteq> LIBSSH2_ERROR_EAGAIN
          \<and> r_rc (reply ?e P_channel_close n) \<noteq> LIBSSH2_ERROR_EAGAIN"
    by (simp add: reply_open_later_def reply_ok_def LIBSSH2_ERROR_EAGAIN_def)
  have en: "r_data (reply ?e P_channel_read 0) = []"
    by (simp add: reply_open_later_def reply_ok_def)
  have en': "r_rc (reply ?e P_channel_read (calls sys0 P_channel_read + 0)) < 0
           \<or> r_data (reply ?e P_channel_read (calls sys0 P_channel_read + 0)) = []"
    using en by (simp add: sys0_def)
  have al': "0 \<le> r_rc (reply ?e P_alloc 0)"
    by (simp add: reply_open_later_def reply_ok_def)
  have a': "r_rc (reply ?e P_channel_open_session 0) = LIBSSH2_ERROR_EAGAIN
         \<and> r_rc (reply ?e P_channel_open_session 1) = LIBSSH2_ERROR_EAGAIN"
    by (simp add: reply_open_later_def)
  have b': "r_rc (reply ?e P_channel_open_session 2) = 0"
    by (simp add: reply_open_later_def reply_ok_def)
  from open_waits_once_per_would_block[OF al a b c, of "Some (map of_char ''lshmc -V'')" 0 0]
  obtain s1 where imp: "(\<forall>n. r_rc (reply ?e P_channel_exec n) \<noteq> LIBSSH2_ERROR_EAGAIN
                     \<and> r_rc (reply ?e P_channel_read n) \<noteq> LIBSSH2_ERROR_EAGAIN
                     \<and> r_rc (reply ?e P_channel_close n) \<noteq> LIBSSH2_ERROR_EAGAIN)
                \<and> (r_rc (reply ?e P_channel_read (calls sys0 P_channel_read + 0)) < 0
                     \<or> r_data (reply ?e P_channel_read (calls sys0 P_channel_read + 0)) = []) \<longrightarrow>
                (\<exists>r s'. phypExec ?e (Some (map of_char ''lshmc -V'')) 0 sys0 = Some (r, s')
                    \<and> calls s' P_poll = calls sys0 P_poll + 2
                    \<and> calls s' P_session_block_directions = calls sys0 P_session_block_directions + 2
                    \<and> length (poll_events s') = length (poll_events sys0) + 2
                    \<and> calls s' P_channel_open_session = calls sys0 P_channel_open_session + 2 + 1)"
    by blast
  with d en' obtain r s' where
      "phypExec ?e (Some (map of_char ''lshmc -V'')) 0 sys0 = Some (r, s')"
      "calls s' P_poll = calls sys0 P_poll + 2"
      "calls s' P_session_block_directions = calls sys0 P_session_block_directions + 2"
      "length (poll_events s') = length (poll_events sys0) + 2"
      "calls s' P_channel_open_session = calls sys0 P_channel_open_session + 2 + 1"
    by blast
  moreover have "calls sys0 P_poll = 0" "calls sys0 P_session_block_directions = 0"
    "poll_events sys0 = []" "calls sys0 P_channel_open_session = 0"
    by (simp_all add: sys0_def)
  ultimately have fin: "\<exists>r s'. phypExec ?e (Some (map of_char ''lshmc -V'')) 0 sys0 = Some (r, s')
          \<and> calls s' P_poll = 2 \<and> calls s' P_session_block_directions = 2
          \<and> length (poll_events s') = 2 \<and> calls s' P_channel_open_session = 3"
    by (intro exI[of _ r] exI[of _ s']) simp
  show ?thesis
    using al' a' b' c d en fin by (intro conjI) simp_all
qed

lemma Pull_zero_iff:
  "phypUUIDTable_Pull e s = Some (0, s') \<longleftrightarrow>
     (0 \<le> r_rc (reply e P_alloc (calls s P_alloc))
      \<and> (\<exists>st_size s2 s4.
            Pull_open e (snd (call e P_alloc s)) = Some (Some st_size, s2)
          \<and> 0 \<le> r_rc (reply e P_creat (calls s2 P_creat))
          \<and> Pull_read e st_size 0 ((snd (call e P_creat s2))\<lparr>local_file := Some []\<rparr>) = Some (True, s4)
          \<and> 0 \<le> r_rc (reply e P_close (calls s4 P_close))
          \<and> s' = snd (call e P_close s4)))"
  by (auto simp: phypUUIDTable_Pull_def Let_def split_beta call_reply
      split: if_splits option.splits bool.splits)

lemma Pull_results:
  "map_option fst (phypUUIDTable_Pull e s) \<in> {None, Some 0, Some (-1)}"
  by (auto simp: phypUUIDTable_Pull_def Let_def split_beta
      split: if_splits option.splits bool.splits)

lemma Pull_alloc_failure:
  "r_rc (reply e P_alloc (calls s P_alloc)) < 0 \<Longrightarrow>
   phypUUIDTable_Pull e s = Some (-1, snd (call e P_alloc s))"
  by (simp add: phypUUIDTable_Pull_def Let_def split_beta call_reply)

lemma Pull_wait_failure:
  assumes "0 \<le> r_rc (reply e P_alloc (calls s P_alloc))"
    and "Pull_open e (snd (call e P_alloc s)) = Some (Some st_size, s2)"
    and "0 \<le> r_rc (reply e P_creat (calls s2 P_creat))"
    and "Pull_read e st_size 0 ((snd (call e P_creat s2))\<lparr>local_file := Some []\<rparr>) = Some (False, s4)"
  shows "phypUUIDTable_Pull e s = Some (-1, s4)"
  using assms
  by (simp add: phypUUIDTable_Pull_def split_beta call_reply Let_def not_less[symmetric])

lemma Pull_close_failure:
  assumes "0 \<le> r_rc (reply e P_alloc (calls s P_alloc))"
    and "Pull_open e (snd (call e P_alloc s)) = Some (Some st_size, s2)"
    and "0 \<le> r_rc (reply e P_creat (calls s2 P_creat))"
    and "Pull_read e st_size 0 ((snd (call e P_creat s2))\<lparr>local_file := Some []\<rparr>) = Some (True, s4)"
    and "r_rc (reply e P_close (calls s4 P_close)) < 0"
  shows "phypUUIDTable_Pull e s = Some (-1, snd (call e P_close s4))"
  using assms
  by (simp add: phypUUIDTable_Pull_def split_beta call_reply Let_def not_less[symmetric])

text \<open>
  Claim C6, a defect of the code. The claim wants the pull to tell "the remote file is not
  there" from every other failure, and the initialisation to create a fresh table in that
  case only. \<^verbatim>\<open>phypUUIDTable_Pull\<close> returns 0 or -1 and nothing else, and 0 only when the
  allocation, the opening of the channel, \<^verbatim>\<open>creat\<close>, the reads with their waits and the
  close all succeeded; \<^verbatim>\<open>phypUUIDTable_Init\<close> tests the result against -1 alone, under the
  comment "file not found in the server, creating a new one". With one remote partition,
  identifier 5, whose entry the remote file holds, the copy channel opening at the first
  call and \<^verbatim>\<open>creat\<close> of the local file failing, the pull returns -1 as it does when the
  channel fails to open; the initialisation returns 0 with \<^verbatim>\<open>table_created\<close> set, the
  table holds a freshly generated identifier, not the one of the remote file, and the
  fresh entry has been pushed over the remote file. With \<^verbatim>\<open>creat\<close> succeeding the table
  holds the identifier of the remote file and nothing is pushed.
\<close>

theorem pull_failure_read_as_not_found:
  "map_option fst (phypUUIDTable_Pull e s) \<in> {None, Some 0, Some (-1)}
   \<and> ((phypUUIDTable_Pull e s = Some (0, s')) =
        (0 \<le> r_rc (reply e P_alloc (calls s P_alloc))
         \<and> (\<exists>st_size s2 s4.
               Pull_open e (snd (call e P_alloc s)) = Some (Some st_size, s2)
             \<and> 0 \<le> r_rc (reply e P_creat (calls s2 P_creat))
             \<and> Pull_read e st_size 0 ((snd (call e P_creat s2))\<lparr>local_file := Some []\<rparr>) = Some (True, s4)
             \<and> 0 \<le> r_rc (reply e P_close (calls s4 P_close))
             \<and> s' = snd (call e P_close s4))))
   \<and> r_rc (reply (env_init 0 (-1)) P_scp_recv 0) = 0
   \<and> map_option fst (Pull_open (env_init 0 (-1)) (snd (call (env_init 0 (-1)) P_alloc sys0))) = Some (Some 20)
   \<and> map_option fst (phypUUIDTable_Pull (env_init 0 (-1)) sys0) = Some (-1)
   \<and> map_option fst (phypUUIDTable_Pull (env_init (-1) 0) sys0) = Some (-1)
   \<and> map_option fst (phypUUIDTable_Init (env_init 0 (-1)) table0 sys0) = Some (Ret 0, True)
   \<and> Init_entries (env_init 0 (-1)) = Some [Some \<lparr>lpar_uuid = replicate 16 0xBB, lpar_id = 5\<rparr>]
   \<and> Init_pushed (env_init 0 (-1)) = Some ([5, 0, 0, 0] @ replicate 16 0xBB)
   \<and> map_option fst (phypUUIDTable_Init (env_init 0 0) table0 sys0) = Some (Ret 0, False)
   \<and> Init_entries (env_init 0 0) = Some [Some \<lparr>lpar_uuid = replicate 16 0xAA, lpar_id = 5\<rparr>]
   \<and> Init_pushed (env_init 0 0) = Some []"
proof -
  have g1: "map_option fst (phypUUIDTable_Pull e s) \<in> {None, Some 0, Some (-1)}"
    by (rule Pull_results)
  have g2: "(phypUUIDTable_Pull e s = Some (0, s')) =
        (0 \<le> r_rc (reply e P_alloc (calls s P_alloc))
         \<and> (\<exists>st_size s2 s4.
               Pull_open e (snd (call e P_alloc s)) = Some (Some st_size, s2)
             \<and> 0 \<le> r_rc (reply e P_creat (calls s2 P_creat))
             \<and> Pull_read e st_size 0 ((snd (call e P_creat s2))\<lparr>local_file := Some []\<rparr>) = Some (True, s4)
             \<and> 0 \<le> r_rc (reply e P_close (calls s4 P_close))
             \<and> s' = snd (call e P_close s4)))"
    by (rule Pull_zero_iff)
  have c1: "r_rc (reply (env_init 0 (-1)) P_scp_recv 0) = 0"
    by (simp add: env_init_def reply_init_def)
  have c2: "map_option fst (Pull_open (env_init 0 (-1)) (snd (call (env_init 0 (-1)) P_alloc sys0))) = Some (Some 20)"
    by (simp add: pull_defs eval_defs)
  have c3: "map_option fst (phypUUIDTable_Pull (env_init 0 (-1)) sys0) = Some (-1)"
    by (simp add: pull_defs eval_defs)
  have c4: "map_option fst (phypUUIDTable_Pull (env_init (-1) 0) sys0) = Some (-1)"
    by (simp add: pull_defs eval_defs)
  have c5: "map_option fst (phypUUIDTable_Init (env_init 0 (-1)) table0 sys0) = Some (Ret 0, True)"
    by (simp add: pull_defs eval_defs)
  have c6: "Init_entries (env_init 0 (-1)) = Some [Some \<lparr>lpar_uuid = replicate 16 0xBB, lpar_id = 5\<rparr>]"
    by (simp add: Init_entries_def pull_defs eval_defs)
  have c7: "Init_pushed (env_init 0 (-1)) = Some ([5, 0, 0, 0] @ replicate 16 0xBB)"
    by (simp add: Init_pushed_def pull_defs eval_defs)
  have c8: "map_option fst (phypUUIDTable_Init (env_init 0 0) table0 sys0) = Some (Ret 0, False)"
    by (simp add: pull_defs eval_defs)
  have c9: "Init_entries (env_init 0 0) = Some [Some \<lparr>lpar_uuid = replicate 16 0xAA, lpar_id = 5\<rparr>]"
    by (simp add: Init_entries_def pull_defs eval_defs)
  have c10: "Init_pushed (env_init 0 0) = Some []"
    by (simp add: Init_pushed_def pull_defs eval_defs)
  from g1 g2 c1 c2 c3 c4 c5 c6 c7 c8 c9 c10 show ?thesis by (intro conjI)
qed











lemma lookup_NULL_entry:
  "map_option (fst \<circ> snd) (phypUUIDTable_AddLpar (env_ok\<lparr>reply := reply_alloc_fails 1\<rparr>) uuid_a 9 table0 sys0)
     = Some \<lparr>nlpars = 1, lpars = [None]\<rparr>"
  "phypGetLparUUID (replicate 16 0) 9 \<lparr>nlpars = 1, lpars = [None]\<rparr> = Fault"
  by (simp_all add: reply_alloc_fails_def table0_def eval_defs)



lemma failure_label_reads_freed_array:
  "map_option fst (phypUUIDTable_Init (env_init (-1) (-1)) table0 sys0) = Some (Ret (-1), True)"
  "map_option fst (phypConnectOpen_session (env_init (-1) (-1)) sys0) = Some Fault"
  by (simp_all add: phypConnectOpen_session_def phypGetSystemType_def phypConnectOpen_failure_def
      phypUUIDTable_Free_def HMC_def exec_defs pull_defs eval_defs)

end
